theory Spec2Isabelle
  imports Complex_Main "HOL-Library.Sublist" "HOL-Library.Log_Nat"
begin

section \<open>JavaScript numbers\<close>

text \<open>
  A JavaScript \<^verbatim>\<open>number\<close> is a binary64 floating-point number: finite, or one of the
  three special values. Every arithmetic operation rounds its exact result to the
  nearest number with 53 significant bits, a tie to the even one. The range of the
  exponent is not bounded here (no overflow to an infinity, no subnormal numbers), and
  the sign of zero is left out. The special values arise where the source divides by
  zero or reads past the end of an array.
\<close>

text \<open>The power of two with an integer exponent.\<close>

definition pow2 :: "int \<Rightarrow> real" where
  "pow2 e = (if 0 \<le> e then 2 ^ nat e else 1 / 2 ^ nat (- e))"

text \<open>The exponent of a positive number \<open>x\<close>: \<open>pow2 e \<le> x < pow2 (e + 1)\<close>.\<close>

definition expo :: "real \<Rightarrow> int" where
  "expo x =
     (if 1 \<le> x then bitlen \<lfloor>x\<rfloor> - 1
      else (let k = bitlen \<lfloor>1 / x\<rfloor> - 1 in if x = pow2 (- k) then - k else - k - 1))"

definition round_half_even :: "real \<Rightarrow> int" where
  "round_half_even x =
     (let f = \<lfloor>x\<rfloor>; r = x - of_int f
      in if r < 1 / 2 then f else if r > 1 / 2 then f + 1 else if even f then f else f + 1)"

text \<open>
  The binary64 number nearest to a real: a multiple of \<open>pow2 (e - 52)\<close>, where \<open>e\<close> is
  the exponent of the real. A numeric literal of the source denotes the rounding of
  its decimal value.
\<close>

definition rnd :: "real \<Rightarrow> real" where
  "rnd x =
     (if x = 0 then 0
      else (let q = pow2 (expo \<bar>x\<bar> - 52) in of_int (round_half_even (x / q)) * q))"

text \<open>The four operations on finite numbers.\<close>

definition fadd :: "real \<Rightarrow> real \<Rightarrow> real" where
  "fadd a b = rnd (a + b)"

definition fsub :: "real \<Rightarrow> real \<Rightarrow> real" where
  "fsub a b = rnd (a - b)"

definition fmul :: "real \<Rightarrow> real \<Rightarrow> real" where
  "fmul a b = rnd (a * b)"

definition fdiv :: "real \<Rightarrow> real \<Rightarrow> real" where
  "fdiv a b = rnd (a / b)"

datatype number = Fin real | PosInf | NegInf | NaN

fun js_neg :: "number \<Rightarrow> number" where
  "js_neg (Fin a) = Fin (- a)"
| "js_neg PosInf = NegInf"
| "js_neg NegInf = PosInf"
| "js_neg NaN = NaN"

fun js_add :: "number \<Rightarrow> number \<Rightarrow> number" where
  "js_add NaN _ = NaN"
| "js_add _ NaN = NaN"
| "js_add (Fin a) (Fin b) = Fin (fadd a b)"
| "js_add PosInf NegInf = NaN"
| "js_add NegInf PosInf = NaN"
| "js_add PosInf _ = PosInf"
| "js_add _ PosInf = PosInf"
| "js_add NegInf _ = NegInf"
| "js_add _ NegInf = NegInf"

definition js_sub :: "number \<Rightarrow> number \<Rightarrow> number" where
  "js_sub a b = js_add a (js_neg b)"

text \<open>An infinity of the given sign (\<open>True\<close> is positive).\<close>

definition signed_inf :: "bool \<Rightarrow> number" where
  "signed_inf positive = (if positive then PosInf else NegInf)"

fun js_mul :: "number \<Rightarrow> number \<Rightarrow> number" where
  "js_mul NaN _ = NaN"
| "js_mul _ NaN = NaN"
| "js_mul (Fin a) (Fin b) = Fin (fmul a b)"
| "js_mul (Fin a) PosInf = (if a = 0 then NaN else signed_inf (0 < a))"
| "js_mul (Fin a) NegInf = (if a = 0 then NaN else signed_inf (a < 0))"
| "js_mul PosInf (Fin b) = (if b = 0 then NaN else signed_inf (0 < b))"
| "js_mul NegInf (Fin b) = (if b = 0 then NaN else signed_inf (b < 0))"
| "js_mul PosInf PosInf = PosInf"
| "js_mul NegInf NegInf = PosInf"
| "js_mul PosInf NegInf = NegInf"
| "js_mul NegInf PosInf = NegInf"

text \<open>
  Division: a finite number over zero is an infinity of the dividend's sign, zero over
  zero and infinity over infinity are \<open>NaN\<close>.
\<close>

fun js_div :: "number \<Rightarrow> number \<Rightarrow> number" where
  "js_div NaN _ = NaN"
| "js_div _ NaN = NaN"
| "js_div (Fin a) (Fin b) =
     (if b = 0 then (if a = 0 then NaN else signed_inf (0 < a)) else Fin (fdiv a b))"
| "js_div (Fin a) _ = Fin 0"
| "js_div PosInf (Fin b) = signed_inf (0 \<le> b)"
| "js_div NegInf (Fin b) = signed_inf (b < 0)"
| "js_div _ _ = NaN"

text \<open>\<^verbatim>\<open>Math.sqrt\<close> is the rounded square root.\<close>

fun Math_sqrt :: "number \<Rightarrow> number" where
  "Math_sqrt (Fin a) = (if a < 0 then NaN else Fin (rnd (sqrt a)))"
| "Math_sqrt PosInf = PosInf"
| "Math_sqrt NegInf = NaN"
| "Math_sqrt NaN = NaN"

fun Math_abs :: "number \<Rightarrow> number" where
  "Math_abs (Fin a) = Fin \<bar>a\<bar>"
| "Math_abs PosInf = PosInf"
| "Math_abs NegInf = PosInf"
| "Math_abs NaN = NaN"

text \<open>
  \<^verbatim>\<open>Math.round\<close> gives the nearest integer, a half towards plus infinity; it is exact.
\<close>

fun Math_round :: "number \<Rightarrow> number" where
  "Math_round (Fin a) = Fin (of_int \<lfloor>a + 1 / 2\<rfloor>)"
| "Math_round x = x"

text \<open>\<^verbatim>\<open>Math.pow(x, 2)\<close>, taken as the rounded product of \<open>x\<close> with itself.\<close>

definition Math_pow2 :: "number \<Rightarrow> number" where
  "Math_pow2 x = js_mul x x"

text \<open>The comparisons \<^verbatim>\<open><\<close> and \<^verbatim>\<open>>\<close>: false whenever an operand is \<open>NaN\<close>.\<close>

fun js_less :: "number \<Rightarrow> number \<Rightarrow> bool" where
  "js_less NaN _ = False"
| "js_less _ NaN = False"
| "js_less (Fin a) (Fin b) = (a < b)"
| "js_less _ NegInf = False"
| "js_less PosInf _ = False"
| "js_less NegInf _ = True"
| "js_less _ PosInf = True"

definition js_greater :: "number \<Rightarrow> number \<Rightarrow> bool" where
  "js_greater a b = js_less b a"

text \<open>
  \<^verbatim>\<open>Math.min(...values)\<close> and \<^verbatim>\<open>Math.max(...values)\<close> over an array of finite
  numbers, both exact; with no argument they are the infinities.
\<close>

fun Math_min :: "real list \<Rightarrow> number" where
  "Math_min [] = PosInf"
| "Math_min (v # vs) = Fin (foldl min v vs)"

fun Math_max :: "real list \<Rightarrow> number" where
  "Math_max [] = NegInf"
| "Math_max (v # vs) = Fin (foldl max v vs)"

text \<open>
  An array read that may be out of range gives \<^verbatim>\<open>undefined\<close> (\<open>None\<close>); used as a
  number, \<^verbatim>\<open>undefined\<close> is \<open>NaN\<close>.
\<close>

definition js_index :: "'a list \<Rightarrow> int \<Rightarrow> 'a option" where
  "js_index xs i = (if 0 \<le> i \<and> i < int (length xs) then Some (xs ! nat i) else None)"

fun to_number :: "real option \<Rightarrow> number" where
  "to_number None = NaN"
| "to_number (Some x) = Fin x"

text \<open>
  The remainder \<^verbatim>\<open>x % 1\<close> of a finite number: it keeps the sign of \<open>x\<close> and is exact.
\<close>

definition js_rem1 :: "real \<Rightarrow> real" where
  "js_rem1 x = x - of_int (if 0 \<le> x then \<lfloor>x\<rfloor> else \<lceil>x\<rceil>)"

section \<open>The statistics engine (performance-analyzer.ts)\<close>

text \<open>
  What is thrown, with its message: an \<^verbatim>\<open>Error\<close> of the program, a TypeError of the
  language, or the timeout error of the host library.
\<close>

datatype error = Error string | TypeError string | TimeoutError string

text \<open>
  The summary of \<^verbatim>\<open>types/index.ts\<close>; its fields \<^verbatim>\<open>min\<close> and \<^verbatim>\<open>max\<close> are
  \<open>min_value\<close> and \<open>max_value\<close> here.
\<close>

record StatisticalSummary =
  mean :: number
  median :: number
  p95 :: number
  p99 :: number
  min_value :: number
  max_value :: number
  standardDeviation :: number
  variance :: number

text \<open>\<^verbatim>\<open>Math.round(x * 100) / 100\<close>, the rounding of every field of a summary.\<close>

definition round2 :: "number \<Rightarrow> number" where
  "round2 x = js_div (Math_round (js_mul x (Fin 100))) (Fin 100)"

text \<open>The rounding \<open>round2\<close> on a finite number, as a real.\<close>

definition round2_fin :: "real \<Rightarrow> real" where
  "round2_fin x = fdiv (of_int \<lfloor>fmul x 100 + 1 / 2\<rfloor>) 100"

text \<open>
  \<^verbatim>\<open>calculatePercentile(sortedValues, percentile)\<close>. The ranks \<open>lower\<close> and
  \<open>upper\<close> are integers; in the last branch both are within the array
  (\<open>0 \<le> lower \<le> upper < length\<close>).
\<close>

definition calculatePercentile :: "real list \<Rightarrow> real \<Rightarrow> real option" where
  "calculatePercentile sortedValues percentile =
     (let index = fmul (fdiv percentile 100) (real (length sortedValues) - 1);
          lower = \<lfloor>index\<rfloor>;
          upper = \<lceil>index\<rceil>;
          weight = js_rem1 index
      in if upper \<ge> int (length sortedValues)
           then js_index sortedValues (int (length sortedValues) - 1)
         else if lower < 0 then js_index sortedValues 0
         else (case (js_index sortedValues lower, js_index sortedValues upper) of
                 (Some l, Some u) \<Rightarrow> Some (fadd (fmul l (fsub 1 weight)) (fmul u weight))
               | _ \<Rightarrow> None))"

definition calculateStatistics :: "real list \<Rightarrow> error + StatisticalSummary" where
  "calculateStatistics values =
     (if length values = 0 then Inl (Error ''Cannot calculate statistics for empty array'')
      else
        (let sortedValues = sort values;
             n = Fin (real (length values));
             mean = js_div (Fin (foldl (\<lambda>sum val. fadd sum val) 0 values)) n;
             median = to_number (calculatePercentile sortedValues 50);
             p95 = to_number (calculatePercentile sortedValues 95);
             p99 = to_number (calculatePercentile sortedValues 99);
             min_value = Math_min values;
             max_value = Math_max values;
             variance = js_div (foldl (\<lambda>sum val. js_add sum (Math_pow2 (js_sub (Fin val) mean)))
                                  (Fin 0) values) n;
             standardDeviation = Math_sqrt variance
         in Inr \<lparr>mean = round2 mean, median = round2 median, p95 = round2 p95,
                  p99 = round2 p99, min_value = round2 min_value,
                  max_value = round2 max_value,
                  standardDeviation = round2 standardDeviation,
                  variance = round2 variance\<rparr>))"

section \<open>The comparison engine (performance-analyzer.ts)\<close>

text \<open>
  The samples, with the two groups of measurements the analyzer reads. The optional
  fields \<^verbatim>\<open>fid\<close> and \<^verbatim>\<open>inp\<close> may be absent. Measurements are finite numbers.
\<close>

record CoreWebVitals =
  lcp :: real
  fid :: "real option"
  inp :: "real option"
  cls :: real

record PerformanceMetrics =
  ttfb :: real
  fcp :: real
  tti :: real
  dnsTime :: real
  sslTime :: real
  totalPageLoadTime :: real
  domContentLoaded :: real
  loadComplete :: real

record MetricsResult =
  coreWebVitals :: CoreWebVitals
  performanceMetrics :: PerformanceMetrics

text \<open>\<^verbatim>\<open>x || 0\<close> on an optional finite number: absent and zero both give zero.\<close>

definition or_zero :: "real option \<Rightarrow> real" where
  "or_zero x = (case x of None \<Rightarrow> 0 | Some v \<Rightarrow> if v = 0 then 0 else v)"

text \<open>The \<^verbatim>\<open>switch\<close> of \<^verbatim>\<open>extractMetricValues\<close> on the name of the metric.\<close>

definition metricValue :: "string \<Rightarrow> MetricsResult \<Rightarrow> real" where
  "metricValue metric result =
     (if metric = ''lcp'' then lcp (coreWebVitals result)
      else if metric = ''fid'' then or_zero (fid (coreWebVitals result))
      else if metric = ''inp'' then or_zero (inp (coreWebVitals result))
      else if metric = ''cls'' then cls (coreWebVitals result)
      else if metric = ''ttfb'' then ttfb (performanceMetrics result)
      else if metric = ''fcp'' then fcp (performanceMetrics result)
      else if metric = ''tti'' then tti (performanceMetrics result)
      else if metric = ''totalPageLoadTime'' then totalPageLoadTime (performanceMetrics result)
      else if metric = ''domContentLoaded'' then domContentLoaded (performanceMetrics result)
      else 0)"

definition extractMetricValues :: "MetricsResult list \<Rightarrow> string \<Rightarrow> real list" where
  "extractMetricValues results metric =
     filter (\<lambda>value. value > 0) (map (metricValue metric) results)"

definition calculateImprovement :: "number \<Rightarrow> number \<Rightarrow> number" where
  "calculateImprovement baseline comparison =
     (if baseline = Fin 0 then Fin 0
      else js_div (Math_round (js_mul (js_mul (js_div (js_sub baseline comparison) baseline)
                                              (Fin 100)) (Fin 100))) (Fin 100))"

definition isSignificantDifference :: "real list \<Rightarrow> real list \<Rightarrow> error + bool" where
  "isSignificantDifference values1 values2 =
     (if length values1 < 2 \<or> length values2 < 2 then Inr False
      else
        (case calculateStatistics values1 of
           Inl e \<Rightarrow> Inl e
         | Inr stats1 \<Rightarrow>
        (case calculateStatistics values2 of
           Inl e \<Rightarrow> Inl e
         | Inr stats2 \<Rightarrow>
        (let n1 = real (length values1);
             n2 = real (length values2);
             pooledVariance =
               js_div (js_add (js_mul (Fin (n1 - 1)) (variance stats1))
                              (js_mul (Fin (n2 - 1)) (variance stats2)))
                      (Fin (n1 + n2 - 2));
             standardError =
               Math_sqrt (js_mul pooledVariance
                            (js_add (js_div (Fin 1) (Fin n1)) (js_div (Fin 1) (Fin n2))));
             tScore = js_div (Math_abs (js_sub (mean stats1) (mean stats2))) standardError;
             criticalValue = Fin 2
         in Inr (js_greater tScore criticalValue)))))"

datatype Winner = App1 | App2 | Tie

definition lowerIsBetter :: "string list" where
  "lowerIsBetter = [''lcp'', ''fid'', ''inp'', ''cls'', ''ttfb'', ''fcp'', ''tti'',
                    ''totalPageLoadTime'', ''domContentLoaded'']"

definition determineWinner :: "number \<Rightarrow> number \<Rightarrow> string \<Rightarrow> Winner" where
  "determineWinner value1 value2 metric =
     (let threshold = Fin (rnd (5 / 100));
          difference = Math_abs (js_sub value1 value2);
          average = js_div (js_add value1 value2) (Fin 2)
      in if js_less (js_div difference average) threshold then Tie
         else if metric \<in> set lowerIsBetter
           then (if js_less value1 value2 then App1 else App2)
         else (if js_greater value1 value2 then App1 else App2))"

definition metrics :: "string list" where
  "metrics = [''lcp'', ''fid'', ''inp'', ''cls'', ''ttfb'', ''fcp'', ''tti'',
              ''totalPageLoadTime'', ''domContentLoaded'']"

record ComparisonResult =
  scenario :: string
  metric :: string
  app1 :: StatisticalSummary
  app2 :: StatisticalSummary
  improvement :: number
  significantDifference :: bool
  winner :: Winner

text \<open>
  The loop of \<^verbatim>\<open>compareApplications\<close> over the metrics still to do, with the
  comparisons pushed so far. An error thrown by \<^verbatim>\<open>calculateStatistics\<close> would leave
  the loop.
\<close>

fun compareLoop ::
  "MetricsResult list \<Rightarrow> MetricsResult list \<Rightarrow> string \<Rightarrow> string list \<Rightarrow>
   ComparisonResult list \<Rightarrow> error + ComparisonResult list" where
  "compareLoop app1Results app2Results scen [] comparisons = Inr comparisons"
| "compareLoop app1Results app2Results scen (m # rest) comparisons =
     (let app1Values = extractMetricValues app1Results m;
          app2Values = extractMetricValues app2Results m
      in if length app1Values = 0 \<or> length app2Values = 0
           then compareLoop app1Results app2Results scen rest comparisons
         else
           (case calculateStatistics app1Values of
              Inl e \<Rightarrow> Inl e
            | Inr app1Stats \<Rightarrow>
           (case calculateStatistics app2Values of
              Inl e \<Rightarrow> Inl e
            | Inr app2Stats \<Rightarrow>
           (case isSignificantDifference app1Values app2Values of
              Inl e \<Rightarrow> Inl e
            | Inr significant \<Rightarrow>
                compareLoop app1Results app2Results scen rest
                  (comparisons @
                   [\<lparr>scenario = scen, metric = m, app1 = app1Stats, app2 = app2Stats,
                     improvement = calculateImprovement (mean app1Stats) (mean app2Stats),
                     significantDifference = significant,
                     winner = determineWinner (mean app1Stats) (mean app2Stats) m\<rparr>])))))"

definition compareApplications ::
  "MetricsResult list \<Rightarrow> MetricsResult list \<Rightarrow> string \<Rightarrow> error + ComparisonResult list" where
  "compareApplications app1Results app2Results scen =
     compareLoop app1Results app2Results scen metrics []"

text \<open>
  \<^verbatim>\<open>detectRegressions(comparisons, regressionThreshold = 10)\<close>: an absent threshold
  (\<open>None\<close>) is the default 10.
\<close>

definition detectRegressions ::
  "ComparisonResult list \<Rightarrow> number option \<Rightarrow> ComparisonResult list" where
  "detectRegressions comparisons regressionThreshold =
     (let t = (case regressionThreshold of None \<Rightarrow> Fin 10 | Some v \<Rightarrow> v)
      in filter (\<lambda>comparison.
                   winner comparison = App1 \<and>
                   js_greater (Math_abs (improvement comparison)) t \<and>
                   significantDifference comparison)
                comparisons)"

text \<open>
  The score of one sample in \<^verbatim>\<open>calculatePerformanceScore\<close>, all finite. The loop
  also adds up the weights in \<^verbatim>\<open>totalWeight\<close>, which it never reads.
\<close>

definition sampleScore :: "MetricsResult \<Rightarrow> real" where
  "sampleScore result =
     (let score0 = 0;
          score1 = fadd score0
            (fmul (rnd (3 / 10)) (max 0 (fsub 100 (fdiv (lcp (coreWebVitals result)) 25))));
          score2 = fadd score1
            (fmul (rnd (2 / 10))
               (max 0 (fsub 100 (fdiv (or_zero (fid (coreWebVitals result))) 1))));
          score3 = fadd score2
            (fmul (rnd (2 / 10)) (max 0 (fsub 100 (fmul (cls (coreWebVitals result)) 1000))));
          score4 = fadd score3
            (fmul (rnd (15 / 100)) (max 0 (fsub 100 (fdiv (ttfb (performanceMetrics result)) 6))));
          score5 = fadd score4
            (fmul (rnd (15 / 100)) (max 0 (fsub 100 (fdiv (tti (performanceMetrics result)) 35))))
      in score5)"

definition calculatePerformanceScore :: "MetricsResult list \<Rightarrow> number" where
  "calculatePerformanceScore results =
     (let totalScore = foldl (\<lambda>total result. fadd total (sampleScore result)) 0 results
      in js_div (Math_round (js_mul (js_div (Fin totalScore) (Fin (real (length results))))
                                    (Fin 100)))
                (Fin 100))"

section \<open>The step interpreter (scenario-runner.ts)\<close>

subsection \<open>Strings\<close>

text \<open>
  \<^verbatim>\<open>s.includes(pat)\<close> and the first occurrence of \<open>pat\<close> in \<open>s\<close>, as the text before
  it and the text after it.
\<close>

fun find_first :: "string \<Rightarrow> string \<Rightarrow> (string \<times> string) option" where
  "find_first pat [] = (if pat = [] then Some ([], []) else None)"
| "find_first pat (c # cs) =
     (if prefix pat (c # cs) then Some ([], drop (length pat) (c # cs))
      else (case find_first pat cs of
              None \<Rightarrow> None
            | Some (pre, post) \<Rightarrow> Some (c # pre, post)))"

definition str_includes :: "string \<Rightarrow> string \<Rightarrow> bool" where
  "str_includes s pat = (find_first pat s \<noteq> None)"

text \<open>
  The replacement text of \<^verbatim>\<open>String.prototype.replace\<close> with a string pattern:
  \<^verbatim>\<open>$$\<close> is a dollar, \<^verbatim>\<open>$&\<close> the matched text, \<^verbatim>\<open>$`\<close> the text before the match
  and \<^verbatim>\<open>$'\<close> the text after it; every other character stands for itself.
\<close>

fun expand_replacement :: "string \<Rightarrow> string \<Rightarrow> string \<Rightarrow> string \<Rightarrow> string" where
  "expand_replacement matched pre post [] = []"
| "expand_replacement matched pre post [c] = [c]"
| "expand_replacement matched pre post (c # d # rest) =
     (if c = CHR ''$'' \<and> d = CHR ''$'' then CHR ''$'' # expand_replacement matched pre post rest
      else if c = CHR ''$'' \<and> d = CHR ''&'' then matched @ expand_replacement matched pre post rest
      else if c = CHR ''$'' \<and> d = CHR 0x60 then pre @ expand_replacement matched pre post rest
      else if c = CHR ''$'' \<and> d = CHR 0x27 then post @ expand_replacement matched pre post rest
      else c # expand_replacement matched pre post (d # rest))"

text \<open>\<^verbatim>\<open>s.replace(pat, replacement)\<close> with a string pattern: the first occurrence only.\<close>

definition replace_first :: "string \<Rightarrow> string \<Rightarrow> string \<Rightarrow> string" where
  "replace_first s pat replacement =
     (case find_first pat s of
        None \<Rightarrow> s
      | Some (pre, post) \<Rightarrow> pre @ expand_replacement pat pre post replacement @ post)"

text \<open>\<^verbatim>\<open>key.split('.')\<close>.\<close>

fun split_on :: "char \<Rightarrow> string \<Rightarrow> string list" where
  "split_on sep [] = [[]]"
| "split_on sep (c # cs) =
     (if c = sep then [] # split_on sep cs
      else (case split_on sep cs of
              [] \<Rightarrow> [[c]]
            | w # ws \<Rightarrow> (c # w) # ws))"

text \<open>The class \<^verbatim>\<open>\w\<close> of a regular expression without the unicode flag.\<close>

definition is_word_char :: "char \<Rightarrow> bool" where
  "is_word_char c =
     (c \<in> set ''abcdefghijklmnopqrstuvwxyzABCDEFGHIJKLMNOPQRSTUVWXYZ0123456789_'')"

text \<open>
  A match of \<^verbatim>\<open>/\$\{(\w+)\}/\<close> at the start of the text: the captured key and the
  text after the closing brace. The greedy \<^verbatim>\<open>\w+\<close> takes every word character, and
  the brace must follow at once.
\<close>

definition match_placeholder :: "string \<Rightarrow> (string \<times> string) option" where
  "match_placeholder s =
     (case s of
        c # d # rest \<Rightarrow>
          (if c = CHR ''$'' \<and> d = CHR ''{'' then
             (let key = takeWhile is_word_char rest;
                  tail = dropWhile is_word_char rest
              in if key \<noteq> [] \<and> tail \<noteq> [] \<and> hd tail = CHR ''}'' then Some (key, tl tail)
                 else None)
           else None)
      | _ \<Rightarrow> None)"

text \<open>
  \<^verbatim>\<open>s.replace(/\$\{(\w+)\}/g, (match, key) => f(match, key))\<close>: every match, from the
  left, is replaced by what the callback returns; the text put in is not scanned
  again.
\<close>

function replace_placeholders :: "(string \<Rightarrow> string \<Rightarrow> string) \<Rightarrow> string \<Rightarrow> string" where
  "replace_placeholders f [] = []"
| "replace_placeholders f (c # cs) =
     (case match_placeholder (c # cs) of
        Some (key, rest) \<Rightarrow>
          f (''${'' @ key @ ''}'') key @ replace_placeholders f rest
      | None \<Rightarrow> c # replace_placeholders f cs)"
  by pat_completeness auto
termination
proof (relation "measure (\<lambda>(f, s). length s)")
  show "wf (measure (\<lambda>(f, s). length s))" by simp
next
  fix f :: "string \<Rightarrow> string \<Rightarrow> string" and c cs
  show "((f, cs), f, c # cs) \<in> measure (\<lambda>(f, s). length s)" by simp
next
  fix f :: "string \<Rightarrow> string \<Rightarrow> string" and c cs x2 key rest
  assume "match_placeholder (c # cs) = Some x2" and "(key, rest) = x2"
  then have m: "match_placeholder (c # cs) = Some (key, rest)" by simp
  then obtain d r where s: "cs = d # r" and rest: "rest = tl (dropWhile is_word_char r)"
    by (auto simp: match_placeholder_def Let_def split: list.splits if_splits)
  have "length (tl (dropWhile is_word_char r)) \<le> length r"
    using length_dropWhile_le[of is_word_char r] by simp
  then show "((f, rest), f, c # cs) \<in> measure (\<lambda>(f, s). length s)"
    by (simp add: s rest)
qed

subsection \<open>Test data\<close>

text \<open>
  The test data of \<^verbatim>\<open>data/test-scenarios.json\<close>, as the schema of the scenario file
  has them: the pool of users, when the file has one, each with a user name and a
  password, and the other keys, each once, with their JSON values.
\<close>

datatype json =
  JNull | JBool bool | JNum real | JStr string | JArr "json list" | JObj "(string \<times> json) list"

record User =
  username :: string
  password :: string

record TestData =
  users :: "User list option"
  entries :: "(string \<times> json) list"

definition userJson :: "User \<Rightarrow> json" where
  "userJson u = JObj [(''username'', JStr (username u)), (''password'', JStr (password u))]"

text \<open>The object \<^verbatim>\<open>this.testData.testData\<close> as a JSON value.\<close>

definition testDataObject :: "TestData \<Rightarrow> json" where
  "testDataObject d =
     JObj ((case users d of None \<Rightarrow> [] | Some us \<Rightarrow> [(''users'', JArr (map userJson us))])
           @ entries d)"

text \<open>A canonical array index: decimal digits with no leading zero.\<close>

definition parse_index :: "string \<Rightarrow> nat option" where
  "parse_index s =
     (if s = [] \<or> \<not> list_all (\<lambda>c. c \<in> set ''0123456789'') s
         \<or> (hd s = CHR ''0'' \<and> length s > 1) then None
      else Some (foldl (\<lambda>n c. 10 * n + (of_char c - 48)) 0 s))"

text \<open>
  The read \<^verbatim>\<open>value?.[k]\<close>, with \<open>None\<close> for \<^verbatim>\<open>undefined\<close>. Own properties only:
  the keys of an object, the indices and the length of an array or a string. Inherited
  properties (methods and constructors) are read as \<^verbatim>\<open>undefined\<close>: none of them is a
  string, but a path through one can end in a string (\<^verbatim>\<open>constructor.name\<close>), and such
  a path is outside this model.
\<close>

definition js_get :: "json option \<Rightarrow> string \<Rightarrow> json option" where
  "js_get v k =
     (case v of
        None \<Rightarrow> None
      | Some JNull \<Rightarrow> None
      | Some (JObj kvs) \<Rightarrow> map_of kvs k
      | Some (JArr xs) \<Rightarrow>
          (if k = ''length'' then Some (JNum (real (length xs)))
           else (case parse_index k of
                   None \<Rightarrow> None
                 | Some i \<Rightarrow> js_index xs (int i)))
      | Some (JStr s) \<Rightarrow>
          (if k = ''length'' then Some (JNum (real (length s)))
           else (case parse_index k of
                   None \<Rightarrow> None
                 | Some i \<Rightarrow> map_option (\<lambda>c. JStr [c]) (js_index s (int i))))
      | Some _ \<Rightarrow> None)"

text \<open>
  \<^verbatim>\<open>getTestDataValue(key)\<close>; the runner's test data is \<open>None\<close> when the file has no
  \<^verbatim>\<open>testData\<close> (or could not be loaded).
\<close>

definition getTestDataValue :: "TestData option \<Rightarrow> string \<Rightarrow> string" where
  "getTestDataValue td key =
     (let testData = (case td of None \<Rightarrow> JObj [] | Some d \<Rightarrow> testDataObject d);
          keys = split_on (CHR ''.'') key;
          v = foldl js_get (Some testData) keys
      in case v of Some (JStr s) \<Rightarrow> s | _ \<Rightarrow> [])"

text \<open>
  \<^verbatim>\<open>Math.random()\<close> draws from a stream of numbers in \<open>[0, 1)\<close>, passed along
  explicitly.
\<close>

type_synonym rng = "nat \<Rightarrow> real"

definition Math_random :: "rng \<Rightarrow> real \<times> rng" where
  "Math_random g = (g 0, \<lambda>i. g (Suc i))"

definition defaultUsers :: "User list" where
  "defaultUsers = [\<lparr>username = ''testuser@example.com'', password = ''testpass''\<rparr>]"

text \<open>\<^verbatim>\<open>getRandomUser()\<close>: \<open>None\<close> is the \<^verbatim>\<open>undefined\<close> read from an empty pool.\<close>

definition getRandomUser :: "TestData option \<Rightarrow> rng \<Rightarrow> User option \<times> rng" where
  "getRandomUser td g =
     (let pool = (case td of
                    None \<Rightarrow> defaultUsers
                  | Some d \<Rightarrow> (case users d of None \<Rightarrow> defaultUsers | Some us \<Rightarrow> us));
          (r, g') = Math_random g
      in (js_index pool \<lfloor>fmul r (real (length pool))\<rfloor>, g'))"

text \<open>
  \<^verbatim>\<open>processValue(value)\<close>. Reading \<^verbatim>\<open>user.username\<close> of \<^verbatim>\<open>undefined\<close> throws a
  TypeError.
\<close>

definition substituteUser ::
  "TestData option \<Rightarrow> string \<Rightarrow> (User \<Rightarrow> string) \<Rightarrow> string \<times> rng \<Rightarrow> error + string \<times> rng" where
  "substituteUser td token field st =
     (case st of (processedValue, g) \<Rightarrow>
        if str_includes processedValue token then
          (case getRandomUser td g of
             (None, g') \<Rightarrow> Inl (TypeError ''Cannot read properties of undefined'')
           | (Some user, g') \<Rightarrow> Inr (replace_first processedValue token (field user), g'))
        else Inr (processedValue, g))"

definition processValue :: "TestData option \<Rightarrow> rng \<Rightarrow> string \<Rightarrow> error + string \<times> rng" where
  "processValue td g v =
     (if \<not> str_includes v ''${'' then Inr (v, g)
      else
        (case substituteUser td ''${username}'' username (v, g) of
           Inl e \<Rightarrow> Inl e
         | Inr st1 \<Rightarrow>
        (case substituteUser td ''${password}'' password st1 of
           Inl e \<Rightarrow> Inl e
         | Inr (processedValue, g2) \<Rightarrow>
             Inr (replace_placeholders
                    (\<lambda>match key. let found = getTestDataValue td key
                                  in if found = [] then match else found)
                    processedValue, g2))))"

subsection \<open>Steps\<close>

text \<open>A step of \<^verbatim>\<open>types/index.ts\<close>; its field \<^verbatim>\<open>value\<close> is \<open>value'\<close> here.\<close>

record TestStep =
  action :: string
  selector :: "string option"
  value' :: "string option"
  url :: "string option"
  timeout :: "real option"
  customFunction :: "string option"

text \<open>
  The page of the host library, as the runner uses it: the calls made so far, and the
  selectors whose element becomes visible before a wait runs out (the wait for any
  other selector throws the host's timeout error).
\<close>

datatype PageCall =
  WaitForVisible string real | Click string | Clear string | Fill string string
  | WaitForTimeout real

record Page =
  becomesVisible :: "string \<Rightarrow> bool"
  calls :: "PageCall list"

record Runner =
  testData :: "TestData option"
  page :: Page
  randomSource :: rng

definition perform :: "PageCall \<Rightarrow> Runner \<Rightarrow> Runner" where
  "perform c r = r\<lparr>page := (page r)\<lparr>calls := calls (page r) @ [c]\<rparr>\<rparr>"

definition waitForVisible :: "string \<Rightarrow> real \<Rightarrow> Runner \<Rightarrow> error + Runner" where
  "waitForVisible sel t r =
     (if becomesVisible (page r) sel then Inr (perform (WaitForVisible sel t) r)
      else Inl (TimeoutError ''Timeout exceeded''))"

text \<open>\<^verbatim>\<open>!step.selector\<close>: the selector is absent or the empty string.\<close>

definition no_selector :: "TestStep \<Rightarrow> bool" where
  "no_selector step = (case selector step of None \<Rightarrow> True | Some sel \<Rightarrow> sel = [])"

definition executeClickStep :: "Runner \<Rightarrow> TestStep \<Rightarrow> real \<Rightarrow> error + Runner" where
  "executeClickStep r step t =
     (if no_selector step then Inl (Error ''Click step requires selector'')
      else
        (case selector step of
           None \<Rightarrow> Inl (Error ''Click step requires selector'')
         | Some sel \<Rightarrow>
             (case waitForVisible sel t r of
                Inl e \<Rightarrow> Inl e
              | Inr r1 \<Rightarrow> Inr (perform (WaitForTimeout 1000) (perform (Click sel) r1)))))"

definition executeFillStep :: "Runner \<Rightarrow> TestStep \<Rightarrow> error + Runner" where
  "executeFillStep r step =
     (if no_selector step \<or> value' step = None
        then Inl (Error ''Fill step requires selector and value'')
      else
        (case (selector step, value' step) of
           (Some sel, Some v) \<Rightarrow>
             (case waitForVisible sel 5000 r of
                Inl e \<Rightarrow> Inl e
              | Inr r1 \<Rightarrow>
                  (case processValue (testData r1) (randomSource r1) v of
                     Inl e \<Rightarrow> Inl e
                   | Inr (processed, g) \<Rightarrow>
                       Inr (perform (Fill sel processed)
                              (perform (Clear sel) (r1\<lparr>randomSource := g\<rparr>)))))
         | _ \<Rightarrow> Inl (Error ''Fill step requires selector and value'')))"

section \<open>Properties of the rounding\<close>

text \<open>
  The exponent brackets its argument, a real within half a unit in the last place of a
  number with 53 significant bits rounds to that number, and rounding keeps the sign
  and leaves a relative error of at most \<open>2\<^sup>-\<^sup>5\<^sup>3\<close>.
\<close>

lemma pow2_powr: "pow2 e = 2 powr (real_of_int e)"
proof (cases "0 \<le> e")
  case True
  then show ?thesis by (simp add: pow2_def powr_realpow[symmetric])
next
  case False
  then have r: "real (nat (- e)) = - real_of_int e" by simp
  have "(2::real) ^ nat (- e) = 2 powr real (nat (- e))" by (simp add: powr_realpow)
  also have "\<dots> = 2 powr (- real_of_int e)" by (simp only: r)
  finally have "(2::real) ^ nat (- e) = 2 powr (- real_of_int e)" .
  then show ?thesis using False by (simp add: pow2_def powr_minus_divide)
qed

lemma pow2_pos: "0 < pow2 e"
  by (simp add: pow2_powr)

lemma pow2_mono: "a \<le> b \<Longrightarrow> pow2 a \<le> pow2 b"
  by (simp add: pow2_powr)

lemma pow2_less: "pow2 a < pow2 b \<longleftrightarrow> a < b"
  by (simp add: pow2_powr)

lemma pow2_add: "pow2 (a + b) = pow2 a * pow2 b"
  by (simp add: pow2_powr powr_add)

lemma pow2_nat: "0 \<le> e \<Longrightarrow> pow2 e = 2 ^ nat e"
  by (simp add: pow2_def)

lemma expo_bounds:
  assumes "0 < x"
  shows "pow2 (expo x) \<le> x \<and> x < pow2 (expo x + 1)"
proof (cases "1 \<le> x")
  case True
  define n where "n = \<lfloor>x\<rfloor>"
  have n: "0 < n" using True by (simp add: n_def)
  then have b1: "1 \<le> bitlen n" by (simp add: bitlen_alt_def)
  have e: "expo x = bitlen n - 1" using True by (simp add: expo_def n_def)
  have bb: "2 ^ nat (bitlen n - 1) \<le> n" "n < 2 ^ nat (bitlen n)"
    using bitlen_bounds[OF n] by auto
  have "pow2 (expo x) = of_int (2 ^ nat (bitlen n - 1))"
    using b1 by (simp add: e pow2_nat)
  also have "\<dots> \<le> of_int n" using bb(1) by (simp only: of_int_le_iff)
  also have "\<dots> \<le> x" by (simp add: n_def)
  finally have lo: "pow2 (expo x) \<le> x" .
  have "n + 1 \<le> 2 ^ nat (bitlen n)" using bb(2) by simp
  then have "real_of_int (n + 1) \<le> of_int (2 ^ nat (bitlen n))" by (simp only: of_int_le_iff)
  moreover have "x < real_of_int (n + 1)" by (simp add: n_def)
  ultimately have "x < of_int (2 ^ nat (bitlen n))" by linarith
  also have "\<dots> = pow2 (expo x + 1)" using b1 by (simp add: e pow2_nat)
  finally show ?thesis using lo by simp
next
  case False
  define y where "y = 1 / x"
  have y: "1 < y" using False assms by (simp add: y_def)
  define n where "n = \<lfloor>y\<rfloor>"
  have n: "0 < n" using y by (simp add: n_def)
  then have b1: "1 \<le> bitlen n" by (simp add: bitlen_alt_def)
  define k where "k = bitlen n - 1"
  have k: "0 \<le> k" using b1 by (simp add: k_def)
  have bb: "2 ^ nat (bitlen n - 1) \<le> n" "n < 2 ^ nat (bitlen n)"
    using bitlen_bounds[OF n] by auto
  have "pow2 k = of_int (2 ^ nat (bitlen n - 1))" using k by (simp add: k_def pow2_nat)
  also have "\<dots> \<le> of_int n" using bb(1) by (simp only: of_int_le_iff)
  also have "\<dots> \<le> y" by (simp add: n_def)
  finally have ylo: "pow2 k \<le> y" .
  have "n + 1 \<le> 2 ^ nat (bitlen n)" using bb(2) by simp
  then have "real_of_int (n + 1) \<le> of_int (2 ^ nat (bitlen n))" by (simp only: of_int_le_iff)
  moreover have "y < real_of_int (n + 1)" by (simp add: n_def)
  ultimately have "y < of_int (2 ^ nat (bitlen n))" by linarith
  also have "\<dots> = pow2 (k + 1)" using b1 by (simp add: k_def pow2_nat)
  finally have yhi: "y < pow2 (k + 1)" .
  have inv: "pow2 (- j) = 1 / pow2 j" for j
    using pow2_add[of "- j" j] pow2_pos[of j] by (simp add: pow2_def field_simps)
  have xhi: "x \<le> pow2 (- k)"
    using ylo assms pow2_pos[of k] by (simp add: inv y_def field_simps)
  have xlo: "pow2 (- k - 1) < x"
  proof -
    have i: "pow2 (- k - 1) = 1 / pow2 (k + 1)" using inv[of "k + 1"] by simp
    have "1 < pow2 (k + 1) * x" using yhi assms by (simp add: y_def field_simps)
    then have "1 / pow2 (k + 1) < x"
      using pow2_pos[of "k + 1"] by (simp add: pos_divide_less_eq mult.commute)
    then show ?thesis by (simp only: i)
  qed
  have e: "expo x = (if x = pow2 (- k) then - k else - k - 1)"
    using False by (simp add: expo_def Let_def k_def n_def y_def)
  show ?thesis
  proof (cases "x = pow2 (- k)")
    case True
    then have "expo x = - k" using e by simp
    then show ?thesis using True pow2_less[of "- k" "- k + 1"] by simp
  next
    case neq: False
    then have "expo x = - k - 1" using e by simp
    then show ?thesis using xlo xhi neq by simp
  qed
qed

lemma expo_unique:
  assumes "pow2 e \<le> x" "x < pow2 (e + 1)"
  shows "expo x = e"
proof -
  have x: "0 < x" using assms(1) pow2_pos[of e] by linarith
  note b = expo_bounds[OF x]
  have "pow2 e < pow2 (expo x + 1)" using assms(1) b by linarith
  then have "e < expo x + 1" by (simp add: pow2_less)
  moreover have "pow2 (expo x) < pow2 (e + 1)" using assms(2) b by linarith
  then have "expo x < e + 1" by (simp add: pow2_less)
  ultimately show ?thesis by simp
qed


lemma rnd_at_exponent:
  assumes "pow2 e \<le> \<bar>x\<bar>" "\<bar>x\<bar> < pow2 (e + 1)"
  shows "rnd x = of_int (round_half_even (x / pow2 (e - 52))) * pow2 (e - 52)"
proof -
  have "x \<noteq> 0" using assms(1) pow2_pos[of e] by auto
  then show ?thesis using expo_unique[OF assms] by (simp add: rnd_def Let_def)
qed


lemma round_half_even_nonneg: "0 \<le> z \<Longrightarrow> 0 \<le> round_half_even z"
  by (auto simp: round_half_even_def Let_def)

lemma rnd_nonneg: "0 \<le> x \<Longrightarrow> 0 \<le> rnd x"
  using pow2_pos[of "expo \<bar>x\<bar> - 52"]
  by (auto simp: rnd_def Let_def intro!: mult_nonneg_nonneg round_half_even_nonneg)

lemma round_half_even_zero_iff: "round_half_even z = 0 \<Longrightarrow> \<bar>z\<bar> \<le> 1 / 2"
  by (auto simp: round_half_even_def Let_def split: if_splits) linarith+

lemma rnd_eq_0_iff: "rnd x = 0 \<longleftrightarrow> x = 0"
proof
  assume r: "rnd x = 0"
  show "x = 0"
  proof (rule ccontr)
    assume nz: "x \<noteq> 0"
    define e where "e = expo \<bar>x\<bar>"
    have b: "pow2 e \<le> \<bar>x\<bar>" using expo_bounds[of "\<bar>x\<bar>"] nz by (simp add: e_def)
    have q: "0 < pow2 (e - 52)" by (rule pow2_pos)
    have "round_half_even (x / pow2 (e - 52)) = 0"
      using r nz q by (simp add: rnd_def Let_def e_def)
    then have "\<bar>x / pow2 (e - 52)\<bar> \<le> 1 / 2" by (rule round_half_even_zero_iff)
    then have "\<bar>x\<bar> \<le> pow2 (e - 52) / 2" using q by (simp add: field_simps)
    moreover have "pow2 (e - 52) \<le> pow2 e" by (rule pow2_mono) simp
    ultimately show False using b q by linarith
  qed
next
  show "x = 0 \<Longrightarrow> rnd x = 0" by (simp add: rnd_def)
qed

lemma rnd_0 [simp]: "rnd 0 = 0"
  by (simp add: rnd_def)

text \<open>The rounding of concrete numbers is computed from these equations.\<close>

lemmas float_eval =
  fadd_def fsub_def fmul_def fdiv_def rnd_def expo_def pow2_def round_half_even_def
  compute_bitlen round2_fin_def Let_def

lemma rnd_1 [simp]: "rnd 1 = 1"
  by (simp add: float_eval)


lemma round_half_even_error: "\<bar>of_int (round_half_even z) - z\<bar> \<le> 1 / 2"
  by (auto simp: round_half_even_def Let_def)

lemma rnd_relative_error:
  assumes "0 < x"
  shows "rnd x \<le> x * (1 + 1 / 2 ^ 53)"
proof -
  define e where "e = expo x"
  define q where "q = pow2 (e - 52)"
  have b: "pow2 e \<le> \<bar>x\<bar>" "\<bar>x\<bar> < pow2 (e + 1)"
    using expo_bounds[OF assms] assms by (simp_all add: e_def)
  have q: "0 < q" unfolding q_def by (rule pow2_pos)
  have r: "rnd x = of_int (round_half_even (x / q)) * q"
    unfolding q_def by (rule rnd_at_exponent[OF b])
  have "of_int (round_half_even (x / q)) \<le> x / q + 1 / 2"
    using round_half_even_error[of "x / q"] by linarith
  then have "of_int (round_half_even (x / q)) * q \<le> (x / q + 1 / 2) * q"
    using q by (intro mult_right_mono) auto
  also have "\<dots> = x + q / 2" using q by (simp add: field_simps)
  finally have 1: "rnd x \<le> x + q / 2" unfolding r .
  have "q = pow2 e * pow2 (- 52)" unfolding q_def using pow2_add[of e "- 52"] by simp
  also have "pow2 (- 52) = 1 / 2 ^ 52" by (simp add: pow2_def)
  finally have "q / 2 = pow2 e * (1 / 2 ^ 53)" by simp
  also have "\<dots> \<le> x * (1 / 2 ^ 53)"
    using b(1) assms by (intro mult_right_mono) auto
  finally show ?thesis using 1 by (simp add: algebra_simps)
qed


section \<open>Properties of the statistics engine\<close>

lemma round2_Fin: "round2 (Fin x) = Fin (round2_fin x)"
  by (simp add: round2_def round2_fin_def)

lemma round2_fin_nonneg: "0 \<le> x \<Longrightarrow> 0 \<le> round2_fin x"
proof -
  assume "0 \<le> x"
  then have "0 \<le> fmul x 100" unfolding fmul_def by (intro rnd_nonneg) simp
  then have "0 \<le> real_of_int \<lfloor>fmul x 100 + 1 / 2\<rfloor>" by simp
  then show ?thesis unfolding round2_fin_def fdiv_def by (intro rnd_nonneg) simp
qed

lemma foldl_sq:
  "foldl (\<lambda>sum val. js_add sum (Math_pow2 (js_sub (Fin val) (Fin m)))) (Fin a) vs
   = Fin (foldl (\<lambda>sum val. fadd sum (fmul (fsub val m) (fsub val m))) a vs)"
  by (induction vs arbitrary: a) (simp_all add: Math_pow2_def js_sub_def fadd_def fsub_def)

lemma foldl_sq_nonneg:
  "0 \<le> a \<Longrightarrow> 0 \<le> foldl (\<lambda>sum val. fadd sum (fmul (fsub val m) (fsub val m))) a vs"
proof (induction vs arbitrary: a)
  case Nil
  then show ?case by simp
next
  case (Cons v vs)
  have "0 \<le> fmul (fsub v m) (fsub v m)" unfolding fmul_def by (intro rnd_nonneg) simp
  then have "0 \<le> fadd a (fmul (fsub v m) (fsub v m))"
    unfolding fadd_def using Cons.prems by (intro rnd_nonneg) simp
  then show ?case using Cons.IH by simp
qed

lemma foldl_min: "foldl min v vs = Min (set (v # vs))" for v :: real
proof -
  have "(\<lambda>x s. min s x) = (min :: real \<Rightarrow> real \<Rightarrow> real)" by (intro ext) (rule min.commute)
  then show ?thesis unfolding Min.set_eq_fold foldl_conv_fold by (simp only:)
qed

lemma foldl_max: "foldl max v vs = Max (set (v # vs))" for v :: real
proof -
  have "(\<lambda>x s. max s x) = (max :: real \<Rightarrow> real \<Rightarrow> real)" by (intro ext) (rule max.commute)
  then show ?thesis unfolding Max.set_eq_fold foldl_conv_fold by (simp only:)
qed

lemma Math_min_nonempty: "vs \<noteq> [] \<Longrightarrow> Math_min vs = Fin (Min (set vs))"
  by (cases vs) (simp_all add: foldl_min del: set_simps)

lemma Math_max_nonempty: "vs \<noteq> [] \<Longrightarrow> Math_max vs = Fin (Max (set vs))"
  by (cases vs) (simp_all add: foldl_max del: set_simps)

text \<open>
  The summary of a non-empty array, field by field: the sum and the sum of squares
  are accumulated from the left, every step rounded.
\<close>

lemma stats_nonempty:
  assumes "vs \<noteq> []"
  shows "calculateStatistics vs =
     Inr \<lparr>mean = Fin (round2_fin (fdiv (foldl fadd 0 vs) (real (length vs)))),
          median = round2 (to_number (calculatePercentile (sort vs) 50)),
          p95 = round2 (to_number (calculatePercentile (sort vs) 95)),
          p99 = round2 (to_number (calculatePercentile (sort vs) 99)),
          min_value = Fin (round2_fin (Min (set vs))),
          max_value = Fin (round2_fin (Max (set vs))),
          standardDeviation = Fin (round2_fin (rnd (sqrt (fdiv
            (foldl (\<lambda>sum val. fadd sum
                      (fmul (fsub val (fdiv (foldl fadd 0 vs) (real (length vs))))
                            (fsub val (fdiv (foldl fadd 0 vs) (real (length vs))))))
               0 vs)
            (real (length vs)))))),
          variance = Fin (round2_fin (fdiv
            (foldl (\<lambda>sum val. fadd sum
                      (fmul (fsub val (fdiv (foldl fadd 0 vs) (real (length vs))))
                            (fsub val (fdiv (foldl fadd 0 vs) (real (length vs))))))
               0 vs)
            (real (length vs))))\<rparr>"
proof -
  define u where "u = fdiv (foldl fadd 0 vs) (real (length vs))"
  define q where "q = foldl (\<lambda>sum val. fadd sum (fmul (fsub val u) (fsub val u))) 0 vs"
  have n: "real (length vs) \<noteq> 0" "0 < real (length vs)" using assms by simp_all
  have "0 \<le> q" unfolding q_def by (rule foldl_sq_nonneg) simp
  then have nn: "\<not> fdiv q (real (length vs)) < 0"
    unfolding fdiv_def using n rnd_nonneg[of "q / real (length vs)"] by simp
  have m: "js_div (Fin (foldl fadd 0 vs)) (Fin (real (length vs))) = Fin u"
    using n by (simp add: u_def)
  have v: "js_div (foldl (\<lambda>sum val. js_add sum (Math_pow2 (js_sub (Fin val) (Fin u))))
                    (Fin 0) vs) (Fin (real (length vs))) = Fin (fdiv q (real (length vs)))"
    using n by (simp add: foldl_sq q_def)
  have sq: "Math_sqrt (Fin (fdiv q (real (length vs)))) = Fin (rnd (sqrt (fdiv q (real (length vs)))))"
    using nn by simp
  have l: "length vs \<noteq> 0" using assms by simp
  have "calculateStatistics vs =
     Inr \<lparr>mean = Fin (round2_fin u),
          median = round2 (to_number (calculatePercentile (sort vs) 50)),
          p95 = round2 (to_number (calculatePercentile (sort vs) 95)),
          p99 = round2 (to_number (calculatePercentile (sort vs) 99)),
          min_value = Fin (round2_fin (Min (set vs))),
          max_value = Fin (round2_fin (Max (set vs))),
          standardDeviation = Fin (round2_fin (rnd (sqrt (fdiv q (real (length vs)))))),
          variance = Fin (round2_fin (fdiv q (real (length vs))))\<rparr>"
    unfolding calculateStatistics_def Let_def m v sq if_not_P[OF l]
      Math_min_nonempty[OF assms] Math_max_nonempty[OF assms] round2_Fin
    by (rule refl)
  then show ?thesis unfolding q_def u_def .
qed

lemma stats_mean:
  "calculateStatistics vs = Inr s \<Longrightarrow> vs \<noteq> [] \<Longrightarrow>
   mean s = Fin (round2_fin (fdiv (foldl fadd 0 vs) (real (length vs))))"
  by (auto simp: stats_nonempty)

lemma stats_variance:
  "calculateStatistics vs = Inr s \<Longrightarrow> vs \<noteq> [] \<Longrightarrow>
   variance s = Fin (round2_fin (fdiv
            (foldl (\<lambda>sum val. fadd sum
                      (fmul (fsub val (fdiv (foldl fadd 0 vs) (real (length vs))))
                            (fsub val (fdiv (foldl fadd 0 vs) (real (length vs))))))
               0 vs)
            (real (length vs))))"
  by (auto simp: stats_nonempty)

lemma stats_min_max:
  "calculateStatistics vs = Inr s \<Longrightarrow> vs \<noteq> [] \<Longrightarrow>
   min_value s = Fin (round2_fin (Min (set vs))) \<and> max_value s = Fin (round2_fin (Max (set vs)))"
  by (auto simp: stats_nonempty)

lemma stats_mean_variance:
  assumes "vs \<noteq> []"
  shows "\<exists>s m a. calculateStatistics vs = Inr s \<and> mean s = Fin m \<and> variance s = Fin a \<and> 0 \<le> a"
proof -
  have "0 \<le> foldl (\<lambda>sum val. fadd sum
                      (fmul (fsub val (fdiv (foldl fadd 0 vs) (real (length vs))))
                            (fsub val (fdiv (foldl fadd 0 vs) (real (length vs))))))
               0 vs"
    by (rule foldl_sq_nonneg) simp
  then have "0 \<le> fdiv (foldl (\<lambda>sum val. fadd sum
                      (fmul (fsub val (fdiv (foldl fadd 0 vs) (real (length vs))))
                            (fsub val (fdiv (foldl fadd 0 vs) (real (length vs))))))
               0 vs) (real (length vs))"
    unfolding fdiv_def by (intro rnd_nonneg) simp
  then show ?thesis
    by (simp add: stats_nonempty[OF assms] round2_fin_nonneg)
qed

text \<open>
  C9: \<^verbatim>\<open>calculateStatistics\<close> of the empty array throws (the error the specification
  calls EmptyInputError is the \<^verbatim>\<open>Error\<close> with the message below), and it returns a
  summary exactly for the non-empty arrays.
\<close>

theorem calculateStatistics_empty_throws:
  "calculateStatistics [] = Inl (Error ''Cannot calculate statistics for empty array'') \<and>
   ((\<exists>s. calculateStatistics vs = Inr s) = (vs \<noteq> []))"
  by (cases vs) (simp_all add: calculateStatistics_def Let_def)

theorem calculateStatistics_empty_throws_witness:
  "calculateStatistics [] = Inl (Error ''Cannot calculate statistics for empty array'') \<and>
   ((\<exists>s. calculateStatistics [7, 5] = Inr s) = ([7, 5 :: real] \<noteq> []))"
  by (rule calculateStatistics_empty_throws)









text \<open>
  C10: \<^verbatim>\<open>calculatePerformanceScore\<close> of the empty list does not throw: it divides the
  total 0 by the length 0 and returns \<open>NaN\<close>. The score is a finite number exactly for
  the non-empty lists.
\<close>

theorem calculatePerformanceScore_empty_NaN:
  "calculatePerformanceScore [] = NaN \<and>
   ((\<exists>x. calculatePerformanceScore rs = Fin x) = (rs \<noteq> []))"
proof (cases "rs = []")
  case True
  then show ?thesis by (simp add: calculatePerformanceScore_def)
next
  case False
  then have n: "real (length rs) \<noteq> 0" by simp
  have "calculatePerformanceScore rs =
          Fin (round2_fin (fdiv (foldl (\<lambda>total result. fadd total (sampleScore result)) 0 rs)
                                (real (length rs))))"
    unfolding calculatePerformanceScore_def Let_def round2_fin_def using n by simp
  then have "\<exists>x. calculatePerformanceScore rs = Fin x" by blast
  then show ?thesis using False by (simp add: calculatePerformanceScore_def)
qed

theorem calculatePerformanceScore_empty_NaN_witness:
  "calculatePerformanceScore [] = NaN \<and>
   ((\<exists>x. calculatePerformanceScore [] = Fin x) = (([] :: MetricsResult list) \<noteq> []))"
  by (rule calculatePerformanceScore_empty_NaN)

section \<open>Properties of the comparison engine\<close>

lemma threshold_pos: "0 < rnd (5 / 100)"
  by (simp add: float_eval)

text \<open>
  The winner for finite means and one of the nine tracked metrics: the relative
  difference is the rounded quotient of the rounded difference by the rounded average,
  and an average of zero never gives a tie.
\<close>

lemma determineWinner_finite:
  assumes "mt \<in> set lowerIsBetter"
  shows "determineWinner (Fin m1) (Fin m2) mt =
           (if fdiv (fadd m1 m2) 2 \<noteq> 0 \<and>
               fdiv \<bar>fsub m1 m2\<bar> (fdiv (fadd m1 m2) 2) < rnd (5 / 100) then Tie
            else if m1 < m2 then App1 else App2)"
proof -
  have s: "js_sub (Fin m1) (Fin m2) = Fin (fsub m1 m2)"
    by (simp add: js_sub_def fadd_def fsub_def)
  show ?thesis
    using assms by (auto simp: determineWinner_def Let_def s signed_inf_def)
qed

text \<open>
  Two pairs of means at the threshold. The numbers written 0.39 and 0.41 tie: the
  rounded quotient is 0.049999999999999906, although the quotient of the decimal
  numbers is 0.05. The numbers written 8.19 and 8.61 do not: the rounded quotient is
  the number written 0.05, although the exact quotient of the two numbers is below it.
\<close>

lemma determineWinner_rounded_ratio:
  "determineWinner (Fin (rnd (39 / 100))) (Fin (rnd (41 / 100))) ''lcp'' = Tie \<and>
   \<not> \<bar>39 / 100 - 41 / 100\<bar> / ((39 / 100 + 41 / 100) / 2) < (5 / 100 :: real) \<and>
   determineWinner (Fin (rnd (819 / 100))) (Fin (rnd (861 / 100))) ''lcp'' = App1 \<and>
   \<bar>rnd (819 / 100) - rnd (861 / 100)\<bar> / ((rnd (819 / 100) + rnd (861 / 100)) / 2)
     < rnd (5 / 100)"
proof -
  have l: "''lcp'' \<in> set lowerIsBetter" by (simp add: lowerIsBetter_def)
  have a: "rnd (39 / 100) = 3512807709348987 / 9007199254740992"
    and b: "rnd (41 / 100) = 7385903388887613 / 18014398509481984"
    by (simp_all add: float_eval)
  have 1: "determineWinner (Fin (rnd (39 / 100))) (Fin (rnd (41 / 100))) ''lcp'' = Tie"
    unfolding determineWinner_finite[OF l] a b by (simp add: float_eval)
  have 2: "\<not> \<bar>39 / 100 - 41 / 100\<bar> / ((39 / 100 + 41 / 100) / 2) < (5 / 100 :: real)"
    by simp
  have c: "rnd (819 / 100) = 4610560118520545 / 562949953421312"
    and d: "rnd (861 / 100) = 605874887369687 / 70368744177664"
    by (simp_all add: float_eval)
  have 3: "determineWinner (Fin (rnd (819 / 100))) (Fin (rnd (861 / 100))) ''lcp'' = App1"
    unfolding determineWinner_finite[OF l] c d by (simp add: float_eval)
  have 4: "\<bar>rnd (819 / 100) - rnd (861 / 100)\<bar> / ((rnd (819 / 100) + rnd (861 / 100)) / 2)
             < rnd (5 / 100)"
    unfolding c d by (simp add: float_eval)
  show ?thesis using 1 2 3 4 by (intro conjI)
qed

text \<open>
  C2, at two means that are both 0 (any two populations whose means round to 0.00):
  the difference 0 over the average 0 is not a number and is not below the threshold,
  neither mean is below the other, and the candidate wins, where the relative
  difference of equal means calls for a tie. The two examples of the specification hold.
\<close>

theorem determineWinner_zero_means_not_tie:
  "determineWinner (Fin 0) (Fin 0) mt = App2 \<and>
   js_div (Math_abs (js_sub (Fin 0) (Fin 0))) (js_div (js_add (Fin 0) (Fin 0)) (Fin 2)) = NaN \<and>
   determineWinner (Fin 100) (Fin 104) ''lcp'' = Tie \<and>
   determineWinner (Fin 100) (Fin 110) ''lcp'' = App1"
proof -
  have l: "''lcp'' \<in> set lowerIsBetter" by (simp add: lowerIsBetter_def)
  have z: "determineWinner (Fin 0) (Fin 0) mt = App2"
    by (simp add: determineWinner_def Let_def js_sub_def js_greater_def fadd_def fdiv_def)
  have n: "js_div (Math_abs (js_sub (Fin 0) (Fin 0))) (js_div (js_add (Fin 0) (Fin 0)) (Fin 2)) = NaN"
    by (simp add: js_sub_def fadd_def fdiv_def)
  have t: "determineWinner (Fin 100) (Fin 104) ''lcp'' = Tie"
    unfolding determineWinner_finite[OF l] by (simp add: float_eval)
  have w: "determineWinner (Fin 100) (Fin 110) ''lcp'' = App1"
    unfolding determineWinner_finite[OF l] by (simp add: float_eval)
  show ?thesis using z n t w by (intro conjI)
qed

lemma isSignificantDifference_eval:
  assumes l: "2 \<le> length v1" "2 \<le> length v2"
    and s: "calculateStatistics v1 = Inr s1" "calculateStatistics v2 = Inr s2"
    and f: "mean s1 = Fin m1" "mean s2 = Fin m2" "variance s1 = Fin a1" "variance s2 = Fin a2"
    and nn: "0 \<le> a1" "0 \<le> a2"
  shows "isSignificantDifference v1 v2 =
           Inr (js_greater
                  (js_div (Fin \<bar>fsub m1 m2\<bar>)
                     (Fin (rnd (sqrt (fmul
                        (fdiv (fadd (fmul (real (length v1) - 1) a1)
                                    (fmul (real (length v2) - 1) a2))
                              (real (length v1) + real (length v2) - 2))
                        (fadd (fdiv 1 (real (length v1))) (fdiv 1 (real (length v2)))))))))
                  (Fin 2))"
proof -
  let ?n1 = "real (length v1)" and ?n2 = "real (length v2)"
  define pooled where
    "pooled = fdiv (fadd (fmul (?n1 - 1) a1) (fmul (?n2 - 1) a2)) (?n1 + ?n2 - 2)"
  define w where "w = fadd (fdiv 1 ?n1) (fdiv 1 ?n2)"
  have n: "?n1 \<noteq> 0" "?n2 \<noteq> 0" "?n1 + ?n2 - 2 \<noteq> 0" "1 \<le> ?n1" "1 \<le> ?n2" "0 < ?n1 + ?n2 - 2"
    using l by auto
  have pv: "js_div (js_add (js_mul (Fin (?n1 - 1)) (Fin a1)) (js_mul (Fin (?n2 - 1)) (Fin a2)))
                   (Fin (?n1 + ?n2 - 2)) = Fin pooled"
    using n(3) by (simp add: pooled_def)
  have inv: "js_add (js_div (Fin 1) (Fin ?n1)) (js_div (Fin 1) (Fin ?n2)) = Fin w"
    using n(1,2) by (simp add: w_def)
  have p1: "0 \<le> fmul (?n1 - 1) a1" "0 \<le> fmul (?n2 - 1) a2"
    unfolding fmul_def using n nn by (auto intro!: rnd_nonneg mult_nonneg_nonneg)
  then have "0 \<le> fadd (fmul (?n1 - 1) a1) (fmul (?n2 - 1) a2)"
    unfolding fadd_def by (intro rnd_nonneg) simp
  then have p2: "0 \<le> pooled"
    unfolding pooled_def fdiv_def using n by (intro rnd_nonneg divide_nonneg_nonneg) auto
  have "0 \<le> fdiv 1 ?n1" "0 \<le> fdiv 1 ?n2"
    unfolding fdiv_def by (auto intro!: rnd_nonneg)
  then have p3: "0 \<le> w" unfolding w_def fadd_def by (intro rnd_nonneg) simp
  have pos: "\<not> fmul pooled w < 0"
    using rnd_nonneg[of "pooled * w"] p2 p3 by (simp add: fmul_def not_less)
  have se: "Math_sqrt (js_mul (Fin pooled) (Fin w)) = Fin (rnd (sqrt (fmul pooled w)))"
    using pos by simp
  have ab: "Math_abs (js_sub (Fin m1) (Fin m2)) = Fin \<bar>fsub m1 m2\<bar>"
    by (simp add: js_sub_def fadd_def fsub_def)
  have nl: "\<not> (length v1 < 2 \<or> length v2 < 2)" using l by auto
  have "isSignificantDifference v1 v2 =
          Inr (js_greater (js_div (Fin \<bar>fsub m1 m2\<bar>) (Fin (rnd (sqrt (fmul pooled w))))) (Fin 2))"
    unfolding isSignificantDifference_def Let_def s f sum.case if_not_P[OF nl] pv inv se ab
    by (rule refl)
  then show ?thesis unfolding pooled_def w_def .
qed

lemma isSignificantDifference_total: "\<exists>b. isSignificantDifference v1 v2 = Inr b"
proof (cases "length v1 < 2 \<or> length v2 < 2")
  case True
  then show ?thesis by (auto simp: isSignificantDifference_def)
next
  case False
  then have "v1 \<noteq> []" "v2 \<noteq> []" by auto
  then obtain s1 s2 where "calculateStatistics v1 = Inr s1" "calculateStatistics v2 = Inr s2"
    using stats_mean_variance by blast
  then show ?thesis using False by (simp add: isSignificantDifference_def Let_def)
qed


lemma sqrt_25: "sqrt 25 = 5"
  using real_sqrt_abs[of 5] by simp


lemma compareLoop_result:
  "\<exists>new. compareLoop a b sc ms acc = Inr (acc @ new) \<and>
     map metric new =
       filter (\<lambda>m. extractMetricValues a m \<noteq> [] \<and> extractMetricValues b m \<noteq> []) ms \<and>
     (\<forall>c \<in> set new.
        scenario c = sc \<and>
        calculateStatistics (extractMetricValues a (metric c)) = Inr (app1 c) \<and>
        calculateStatistics (extractMetricValues b (metric c)) = Inr (app2 c) \<and>
        improvement c = calculateImprovement (mean (app1 c)) (mean (app2 c)) \<and>
        isSignificantDifference (extractMetricValues a (metric c))
          (extractMetricValues b (metric c)) = Inr (significantDifference c) \<and>
        winner c = determineWinner (mean (app1 c)) (mean (app2 c)) (metric c))"
proof (induction ms arbitrary: acc)
  case Nil
  then show ?case by simp
next
  case (Cons m ms)
  show ?case
  proof (cases "extractMetricValues a m = [] \<or> extractMetricValues b m = []")
    case True
    then show ?thesis using Cons.IH[of acc] by auto
  next
    case False
    then have ne: "extractMetricValues a m \<noteq> []" "extractMetricValues b m \<noteq> []" by auto
    obtain s1 where s1: "calculateStatistics (extractMetricValues a m) = Inr s1"
      using stats_mean_variance[OF ne(1)] by blast
    obtain s2 where s2: "calculateStatistics (extractMetricValues b m) = Inr s2"
      using stats_mean_variance[OF ne(2)] by blast
    obtain sg where sg: "isSignificantDifference (extractMetricValues a m)
          (extractMetricValues b m) = Inr sg"
      using isSignificantDifference_total by blast
    define c0 where "c0 = \<lparr>scenario = sc, metric = m, app1 = s1, app2 = s2,
                     improvement = calculateImprovement (mean s1) (mean s2),
                     significantDifference = sg,
                     winner = determineWinner (mean s1) (mean s2) m\<rparr>"
    have step: "compareLoop a b sc (m # ms) acc = compareLoop a b sc ms (acc @ [c0])"
      using ne s1 s2 sg by (simp add: c0_def Let_def)
    obtain new where new: "compareLoop a b sc ms (acc @ [c0]) = Inr ((acc @ [c0]) @ new)"
      "map metric new =
       filter (\<lambda>m. extractMetricValues a m \<noteq> [] \<and> extractMetricValues b m \<noteq> []) ms"
      "\<forall>c \<in> set new.
        scenario c = sc \<and>
        calculateStatistics (extractMetricValues a (metric c)) = Inr (app1 c) \<and>
        calculateStatistics (extractMetricValues b (metric c)) = Inr (app2 c) \<and>
        improvement c = calculateImprovement (mean (app1 c)) (mean (app2 c)) \<and>
        isSignificantDifference (extractMetricValues a (metric c))
          (extractMetricValues b (metric c)) = Inr (significantDifference c) \<and>
        winner c = determineWinner (mean (app1 c)) (mean (app2 c)) (metric c)"
      using Cons.IH[of "acc @ [c0]"] by blast
    have c0: "scenario c0 = sc \<and>
        calculateStatistics (extractMetricValues a (metric c0)) = Inr (app1 c0) \<and>
        calculateStatistics (extractMetricValues b (metric c0)) = Inr (app2 c0) \<and>
        improvement c0 = calculateImprovement (mean (app1 c0)) (mean (app2 c0)) \<and>
        isSignificantDifference (extractMetricValues a (metric c0))
          (extractMetricValues b (metric c0)) = Inr (significantDifference c0) \<and>
        winner c0 = determineWinner (mean (app1 c0)) (mean (app2 c0)) (metric c0)"
      "metric c0 = m"
      using s1 s2 sg by (simp_all add: c0_def)
    show ?thesis
      apply (rule exI[of _ "c0 # new"])
      using step new c0 ne by simp
  qed
qed

lemma compareApplications_result:
  "\<exists>cs. compareApplications a b sc = Inr cs \<and>
     map metric cs =
       filter (\<lambda>m. extractMetricValues a m \<noteq> [] \<and> extractMetricValues b m \<noteq> []) metrics \<and>
     (\<forall>c \<in> set cs.
        scenario c = sc \<and>
        calculateStatistics (extractMetricValues a (metric c)) = Inr (app1 c) \<and>
        calculateStatistics (extractMetricValues b (metric c)) = Inr (app2 c) \<and>
        improvement c = calculateImprovement (mean (app1 c)) (mean (app2 c)) \<and>
        isSignificantDifference (extractMetricValues a (metric c))
          (extractMetricValues b (metric c)) = Inr (significantDifference c) \<and>
        winner c = determineWinner (mean (app1 c)) (mean (app2 c)) (metric c))"
  using compareLoop_result[of a b sc metrics "[]"] by (simp add: compareApplications_def)

text \<open>
  A population compared with itself: the improvement is 0 for every comparison, and
  the winner is a tie unless the rounded mean is 0, where the candidate wins.
\<close>

lemma calculateImprovement_same: "calculateImprovement (Fin m) (Fin m) = Fin 0"
  by (simp add: calculateImprovement_def js_sub_def fadd_def fmul_def fdiv_def)

lemma determineWinner_same:
  "determineWinner (Fin m) (Fin m) mt = (if m = 0 then App2 else Tie)"
proof -
  have d: "js_sub (Fin m) (Fin m) = Fin 0" by (simp add: js_sub_def fadd_def)
  have a: "(fdiv (fadd m m) 2 = 0) = (m = 0)" by (simp add: fdiv_def fadd_def rnd_eq_0_iff)
  show ?thesis
    using threshold_pos a
    by (simp add: determineWinner_def Let_def d js_greater_def fdiv_def)
qed

lemma identical_populations:
  "\<exists>cs. compareApplications X X sc = Inr cs \<and>
     (\<forall>c \<in> set cs. improvement c = Fin 0 \<and>
        winner c = (if mean (app1 c) = Fin 0 then App2 else Tie))"
proof -
  obtain cs where cs: "compareApplications X X sc = Inr cs"
    and f: "\<forall>c \<in> set cs.
        scenario c = sc \<and>
        calculateStatistics (extractMetricValues X (metric c)) = Inr (app1 c) \<and>
        calculateStatistics (extractMetricValues X (metric c)) = Inr (app2 c) \<and>
        improvement c = calculateImprovement (mean (app1 c)) (mean (app2 c)) \<and>
        isSignificantDifference (extractMetricValues X (metric c))
          (extractMetricValues X (metric c)) = Inr (significantDifference c) \<and>
        winner c = determineWinner (mean (app1 c)) (mean (app2 c)) (metric c)"
    using compareApplications_result[of X X sc] by blast
  have "improvement c = Fin 0 \<and> winner c = (if mean (app1 c) = Fin 0 then App2 else Tie)"
    if c: "c \<in> set cs" for c
  proof -
    let ?v = "extractMetricValues X (metric c)"
    have s: "calculateStatistics ?v = Inr (app1 c)" "calculateStatistics ?v = Inr (app2 c)"
      and i: "improvement c = calculateImprovement (mean (app1 c)) (mean (app2 c))"
      and w: "winner c = determineWinner (mean (app1 c)) (mean (app2 c)) (metric c)"
      using f c by blast+
    have eq: "app2 c = app1 c" using s by simp
    have "?v \<noteq> []" using s(1) by (auto simp: calculateStatistics_def)
    then obtain m where m: "mean (app1 c) = Fin m"
      using stats_mean_variance[of ?v] s(1) by auto
    show ?thesis
      by (simp add: i w eq m calculateImprovement_same determineWinner_same)
  qed
  then show ?thesis using cs by blast
qed

text \<open>
  C4: \<^verbatim>\<open>compareApplications\<close> never throws; it emits one comparison, in the order of
  the fixed metric list, for exactly those metrics for which both sides keep a value
  after every value that is not positive has been discarded, and none for a metric
  with an empty side. The summaries of a comparison are the statistics of the filtered
  values, so a sample whose value is zero (or negative) does not count: removing it
  leaves the extracted list unchanged. Each metric name reads its own field.
\<close>

theorem compareApplications_discards_nonpositive:
  "\<exists>cs. compareApplications a b sc = Inr cs \<and>
     map metric cs =
       filter (\<lambda>m. extractMetricValues a m \<noteq> [] \<and> extractMetricValues b m \<noteq> []) metrics \<and>
     (\<forall>c \<in> set cs.
        calculateStatistics (extractMetricValues a (metric c)) = Inr (app1 c) \<and>
        calculateStatistics (extractMetricValues b (metric c)) = Inr (app2 c)) \<and>
     (\<forall>m \<in> set metrics.
        extractMetricValues a m = [] \<or> extractMetricValues b m = [] \<longrightarrow>
        m \<notin> metric ` set cs) \<and>
     extractMetricValues rs mt = filter (\<lambda>v. 0 < v) (map (metricValue mt) rs) \<and>
     (\<forall>v \<in> set (extractMetricValues rs mt). 0 < v) \<and>
     (metricValue mt r \<le> 0 \<longrightarrow>
        extractMetricValues (rs1 @ r # rs2) mt = extractMetricValues (rs1 @ rs2) mt) \<and>
     metrics = [''lcp'', ''fid'', ''inp'', ''cls'', ''ttfb'', ''fcp'', ''tti'',
                ''totalPageLoadTime'', ''domContentLoaded''] \<and>
     metricValue ''lcp'' r = lcp (coreWebVitals r) \<and>
     metricValue ''fid'' r = (case fid (coreWebVitals r) of None \<Rightarrow> 0 | Some v \<Rightarrow> v) \<and>
     metricValue ''inp'' r = (case inp (coreWebVitals r) of None \<Rightarrow> 0 | Some v \<Rightarrow> v) \<and>
     metricValue ''cls'' r = cls (coreWebVitals r) \<and>
     metricValue ''ttfb'' r = ttfb (performanceMetrics r) \<and>
     metricValue ''fcp'' r = fcp (performanceMetrics r) \<and>
     metricValue ''tti'' r = tti (performanceMetrics r) \<and>
     metricValue ''totalPageLoadTime'' r = totalPageLoadTime (performanceMetrics r) \<and>
     metricValue ''domContentLoaded'' r = domContentLoaded (performanceMetrics r)"
proof -
  obtain cs where cs: "compareApplications a b sc = Inr cs"
    and mm: "map metric cs =
       filter (\<lambda>m. extractMetricValues a m \<noteq> [] \<and> extractMetricValues b m \<noteq> []) metrics"
    and f: "\<forall>c \<in> set cs.
        scenario c = sc \<and>
        calculateStatistics (extractMetricValues a (metric c)) = Inr (app1 c) \<and>
        calculateStatistics (extractMetricValues b (metric c)) = Inr (app2 c) \<and>
        improvement c = calculateImprovement (mean (app1 c)) (mean (app2 c)) \<and>
        isSignificantDifference (extractMetricValues a (metric c))
          (extractMetricValues b (metric c)) = Inr (significantDifference c) \<and>
        winner c = determineWinner (mean (app1 c)) (mean (app2 c)) (metric c)"
    using compareApplications_result[of a b sc] by blast
  have st: "\<forall>c \<in> set cs.
        calculateStatistics (extractMetricValues a (metric c)) = Inr (app1 c) \<and>
        calculateStatistics (extractMetricValues b (metric c)) = Inr (app2 c)"
    using f by blast
  have "metric ` set cs = set (map metric cs)" by simp
  also have "\<dots> = {m \<in> set metrics. extractMetricValues a m \<noteq> [] \<and> extractMetricValues b m \<noteq> []}"
    unfolding mm by simp
  finally have skip: "\<forall>m \<in> set metrics.
        extractMetricValues a m = [] \<or> extractMetricValues b m = [] \<longrightarrow>
        m \<notin> metric ` set cs"
    by blast
  have e1: "extractMetricValues rs mt = filter (\<lambda>v. 0 < v) (map (metricValue mt) rs)"
    by (simp add: extractMetricValues_def)
  have e2: "\<forall>v \<in> set (extractMetricValues rs mt). 0 < v"
    by (simp add: extractMetricValues_def)
  have e3: "metricValue mt r \<le> 0 \<longrightarrow>
        extractMetricValues (rs1 @ r # rs2) mt = extractMetricValues (rs1 @ rs2) mt"
    by (simp add: extractMetricValues_def)
  have g: "metrics = [''lcp'', ''fid'', ''inp'', ''cls'', ''ttfb'', ''fcp'', ''tti'',
                ''totalPageLoadTime'', ''domContentLoaded'']"
     "metricValue ''lcp'' r = lcp (coreWebVitals r)"
     "metricValue ''fid'' r = (case fid (coreWebVitals r) of None \<Rightarrow> 0 | Some v \<Rightarrow> v)"
     "metricValue ''inp'' r = (case inp (coreWebVitals r) of None \<Rightarrow> 0 | Some v \<Rightarrow> v)"
     "metricValue ''cls'' r = cls (coreWebVitals r)"
     "metricValue ''ttfb'' r = ttfb (performanceMetrics r)"
     "metricValue ''fcp'' r = fcp (performanceMetrics r)"
     "metricValue ''tti'' r = tti (performanceMetrics r)"
     "metricValue ''totalPageLoadTime'' r = totalPageLoadTime (performanceMetrics r)"
     "metricValue ''domContentLoaded'' r = domContentLoaded (performanceMetrics r)"
    by (simp_all add: metrics_def metricValue_def or_zero_def split: option.splits)
  show ?thesis
    using cs mm st skip e1 e2 e3 g by blast
qed

theorem compareApplications_discards_nonpositive_witness:
  "\<exists>cs. compareApplications
      [\<lparr>coreWebVitals = \<lparr>lcp = 1200, fid = None, inp = Some 0, cls = 1 / 10\<rparr>,
        performanceMetrics = \<lparr>ttfb = 200, fcp = 0, tti = 900, dnsTime = 10, sslTime = 20,
          totalPageLoadTime = 2000, domContentLoaded = 1500, loadComplete = 2100\<rparr>\<rparr>,
       \<lparr>coreWebVitals = \<lparr>lcp = 0, fid = None, inp = Some 0, cls = 1 / 10\<rparr>,
        performanceMetrics = \<lparr>ttfb = 200, fcp = 0, tti = 900, dnsTime = 10, sslTime = 20,
          totalPageLoadTime = 2000, domContentLoaded = 1500, loadComplete = 2100\<rparr>\<rparr>]
      [\<lparr>coreWebVitals = \<lparr>lcp = 1000, fid = Some 12, inp = Some 40, cls = 1 / 10\<rparr>,
        performanceMetrics = \<lparr>ttfb = 200, fcp = 600, tti = 900, dnsTime = 10, sslTime = 20,
          totalPageLoadTime = 2000, domContentLoaded = 1500, loadComplete = 2100\<rparr>\<rparr>]
      ''home'' = Inr cs \<and>
     map metric cs = [''lcp'', ''cls'', ''ttfb'', ''tti'', ''totalPageLoadTime'',
                      ''domContentLoaded''] \<and>
     ''fid'' \<in> set metrics \<and> ''fid'' \<notin> metric ` set cs \<and>
     extractMetricValues
       [\<lparr>coreWebVitals = \<lparr>lcp = 1200, fid = None, inp = Some 0, cls = 1 / 10\<rparr>,
         performanceMetrics = \<lparr>ttfb = 200, fcp = 0, tti = 900, dnsTime = 10, sslTime = 20,
           totalPageLoadTime = 2000, domContentLoaded = 1500, loadComplete = 2100\<rparr>\<rparr>,
        \<lparr>coreWebVitals = \<lparr>lcp = 0, fid = None, inp = Some 0, cls = 1 / 10\<rparr>,
         performanceMetrics = \<lparr>ttfb = 200, fcp = 0, tti = 900, dnsTime = 10, sslTime = 20,
           totalPageLoadTime = 2000, domContentLoaded = 1500, loadComplete = 2100\<rparr>\<rparr>]
       ''lcp'' = [1200] \<and>
     (\<exists>c. c \<in> set cs \<and> metric c = ''lcp'' \<and> mean (app1 c) = Fin 1200)"
proof -
  let ?a = "[\<lparr>coreWebVitals = \<lparr>lcp = 1200, fid = None, inp = Some 0, cls = 1 / 10\<rparr>,
        performanceMetrics = \<lparr>ttfb = 200, fcp = 0, tti = 900, dnsTime = 10, sslTime = 20,
          totalPageLoadTime = 2000, domContentLoaded = 1500, loadComplete = 2100\<rparr>\<rparr>,
       \<lparr>coreWebVitals = \<lparr>lcp = 0, fid = None, inp = Some 0, cls = 1 / 10\<rparr>,
        performanceMetrics = \<lparr>ttfb = 200, fcp = 0, tti = 900, dnsTime = 10, sslTime = 20,
          totalPageLoadTime = 2000, domContentLoaded = 1500, loadComplete = 2100\<rparr>\<rparr>]"
  let ?b = "[\<lparr>coreWebVitals = \<lparr>lcp = 1000, fid = Some 12, inp = Some 40, cls = 1 / 10\<rparr>,
        performanceMetrics = \<lparr>ttfb = 200, fcp = 600, tti = 900, dnsTime = 10, sslTime = 20,
          totalPageLoadTime = 2000, domContentLoaded = 1500, loadComplete = 2100\<rparr>\<rparr>]"
  let ?r1 = "\<lparr>coreWebVitals = \<lparr>lcp = 1200, fid = None, inp = Some 0, cls = 1 / 10\<rparr>,
        performanceMetrics = \<lparr>ttfb = 200, fcp = 0, tti = 900, dnsTime = 10, sslTime = 20,
          totalPageLoadTime = 2000, domContentLoaded = 1500, loadComplete = 2100\<rparr>\<rparr>"
  let ?r0 = "\<lparr>coreWebVitals = \<lparr>lcp = 0, fid = None, inp = Some 0, cls = 1 / 10\<rparr>,
        performanceMetrics = \<lparr>ttfb = 200, fcp = 0, tti = 900, dnsTime = 10, sslTime = 20,
          totalPageLoadTime = 2000, domContentLoaded = 1500, loadComplete = 2100\<rparr>\<rparr>"
  obtain cs where cs: "compareApplications ?a ?b ''home'' = Inr cs"
    and mm: "map metric cs =
       filter (\<lambda>m. extractMetricValues ?a m \<noteq> [] \<and> extractMetricValues ?b m \<noteq> []) metrics"
    and st: "\<forall>c \<in> set cs.
        calculateStatistics (extractMetricValues ?a (metric c)) = Inr (app1 c) \<and>
        calculateStatistics (extractMetricValues ?b (metric c)) = Inr (app2 c)"
    and skip: "\<forall>m \<in> set metrics.
        extractMetricValues ?a m = [] \<or> extractMetricValues ?b m = [] \<longrightarrow>
        m \<notin> metric ` set cs"
    and drop0: "metricValue ''lcp'' ?r0 \<le> 0 \<longrightarrow>
        extractMetricValues ([?r1] @ ?r0 # []) ''lcp'' = extractMetricValues ([?r1] @ []) ''lcp''"
    using compareApplications_discards_nonpositive
            [where a = ?a and b = ?b and sc = "''home''" and mt = "''lcp''" and r = ?r0
               and ?rs1.0 = "[?r1]" and ?rs2.0 = "[]"]
    by blast
  have "metricValue ''lcp'' ?r0 \<le> 0" by (simp add: metricValue_def)
  then have "extractMetricValues ?a ''lcp'' = extractMetricValues [?r1] ''lcp''"
    using drop0 by simp
  then have lcp1: "extractMetricValues ?a ''lcp'' = [1200]"
    by (simp add: extractMetricValues_def metricValue_def)
  have names: "map metric cs = [''lcp'', ''cls'', ''ttfb'', ''tti'', ''totalPageLoadTime'',
                      ''domContentLoaded'']"
    unfolding mm by (simp add: metrics_def extractMetricValues_def metricValue_def or_zero_def)
  have fid: "''fid'' \<in> set metrics" by (simp add: metrics_def)
  have "extractMetricValues ?a ''fid'' = []"
    by (simp add: extractMetricValues_def metricValue_def or_zero_def)
  then have nofid: "''fid'' \<notin> metric ` set cs" using skip fid by blast
  obtain c rest where c: "cs = c # rest" "metric c = ''lcp''" using names by auto
  have "calculateStatistics [1200] = Inr (app1 c)" using st c lcp1 by simp
  then have "mean (app1 c) = Fin 1200"
    using stats_mean[of "[1200]" "app1 c"] by (simp add: float_eval)
  then have "\<exists>c. c \<in> set cs \<and> metric c = ''lcp'' \<and> mean (app1 c) = Fin 1200"
    using c by auto
  then show ?thesis using cs names fid nofid lcp1 by (intro exI[of _ cs] conjI)
qed

text \<open>
  C1, at a sample that is compared with itself: every metric is positive and the
  layout shift is 0.004. Both means of the layout shift round to 0, the improvement is
  0, and the winner is the candidate, not a tie: the relative difference is 0 / 0.
\<close>

theorem identical_populations_zero_mean_not_tie:
  "\<exists>cs c. compareApplications
      [\<lparr>coreWebVitals = \<lparr>lcp = 1200, fid = Some 12, inp = Some 40, cls = 4 / 1000\<rparr>,
        performanceMetrics = \<lparr>ttfb = 200, fcp = 600, tti = 900, dnsTime = 10, sslTime = 20,
          totalPageLoadTime = 2000, domContentLoaded = 1500, loadComplete = 2100\<rparr>\<rparr>]
      [\<lparr>coreWebVitals = \<lparr>lcp = 1200, fid = Some 12, inp = Some 40, cls = 4 / 1000\<rparr>,
        performanceMetrics = \<lparr>ttfb = 200, fcp = 600, tti = 900, dnsTime = 10, sslTime = 20,
          totalPageLoadTime = 2000, domContentLoaded = 1500, loadComplete = 2100\<rparr>\<rparr>]
      ''home'' = Inr cs \<and>
     c \<in> set cs \<and> metric c = ''cls'' \<and>
     extractMetricValues
       [\<lparr>coreWebVitals = \<lparr>lcp = 1200, fid = Some 12, inp = Some 40, cls = 4 / 1000\<rparr>,
         performanceMetrics = \<lparr>ttfb = 200, fcp = 600, tti = 900, dnsTime = 10, sslTime = 20,
           totalPageLoadTime = 2000, domContentLoaded = 1500, loadComplete = 2100\<rparr>\<rparr>]
       ''cls'' = [4 / 1000] \<and>
     mean (app1 c) = Fin 0 \<and> mean (app2 c) = Fin 0 \<and>
     improvement c = Fin 0 \<and> winner c = App2"
proof -
  let ?x = "[\<lparr>coreWebVitals = \<lparr>lcp = 1200, fid = Some 12, inp = Some 40, cls = 4 / 1000\<rparr>,
        performanceMetrics = \<lparr>ttfb = 200, fcp = 600, tti = 900, dnsTime = 10, sslTime = 20,
          totalPageLoadTime = 2000, domContentLoaded = 1500, loadComplete = 2100\<rparr>\<rparr>]"
  obtain cs where cs: "compareApplications ?x ?x ''home'' = Inr cs"
    and mm: "map metric cs =
       filter (\<lambda>m. extractMetricValues ?x m \<noteq> [] \<and> extractMetricValues ?x m \<noteq> []) metrics"
    and f: "\<forall>c \<in> set cs.
        scenario c = ''home'' \<and>
        calculateStatistics (extractMetricValues ?x (metric c)) = Inr (app1 c) \<and>
        calculateStatistics (extractMetricValues ?x (metric c)) = Inr (app2 c) \<and>
        improvement c = calculateImprovement (mean (app1 c)) (mean (app2 c)) \<and>
        isSignificantDifference (extractMetricValues ?x (metric c))
          (extractMetricValues ?x (metric c)) = Inr (significantDifference c) \<and>
        winner c = determineWinner (mean (app1 c)) (mean (app2 c)) (metric c)"
    using compareApplications_result[of ?x ?x "''home''"] by blast
  have "map metric cs = metrics"
    unfolding mm by (simp add: metrics_def extractMetricValues_def metricValue_def or_zero_def)
  then have "''cls'' \<in> set (map metric cs)" by (simp add: metrics_def)
  then obtain c where c: "c \<in> set cs" "metric c = ''cls''" by auto
  have ex: "extractMetricValues ?x ''cls'' = [4 / 1000]"
    by (simp add: extractMetricValues_def metricValue_def)
  have s: "calculateStatistics [4 / 1000] = Inr (app1 c)"
      "calculateStatistics [4 / 1000] = Inr (app2 c)"
    and i: "improvement c = calculateImprovement (mean (app1 c)) (mean (app2 c))"
    and w: "winner c = determineWinner (mean (app1 c)) (mean (app2 c)) ''cls''"
    using f c ex by auto
  have m: "mean (app1 c) = Fin 0" "mean (app2 c) = Fin 0"
    using stats_mean[OF s(1)] stats_mean[OF s(2)] by (simp_all add: float_eval)
  show ?thesis
    using cs c ex m i w
    by (auto simp: calculateImprovement_same determineWinner_same)
qed

text \<open>
  C5: \<^verbatim>\<open>detectRegressions\<close> keeps, in their order, exactly the comparisons that the
  baseline wins, whose improvement exceeds the threshold in absolute value and whose
  difference is significant; a comparison that is not significant is never returned,
  whatever its gap. An absent threshold is 10.
\<close>

theorem detectRegressions_exact:
  "(c \<in> set (detectRegressions cs (Some t)) =
      (c \<in> set cs \<and> winner c = App1 \<and> js_greater (Math_abs (improvement c)) t \<and>
       significantDifference c)) \<and>
   detectRegressions cs (Some t) =
     filter (\<lambda>c. winner c = App1 \<and> js_greater (Math_abs (improvement c)) t \<and>
                  significantDifference c) cs \<and>
   subseq (detectRegressions cs (Some t)) cs \<and>
   (\<forall>i x. improvement c = Fin i \<longrightarrow>
      js_greater (Math_abs (improvement c)) (Fin x) = (x < \<bar>i\<bar>)) \<and>
   (\<not> significantDifference c \<longrightarrow> c \<notin> set (detectRegressions cs (Some t))) \<and>
   detectRegressions cs None = detectRegressions cs (Some (Fin 10))"
  by (auto simp: detectRegressions_def js_greater_def)

theorem detectRegressions_exact_witness:
  "\<exists>cs c. compareApplications
      [\<lparr>coreWebVitals = \<lparr>lcp = 9, fid = None, inp = None, cls = 0\<rparr>,
        performanceMetrics = \<lparr>ttfb = 0, fcp = 0, tti = 0, dnsTime = 0, sslTime = 0,
          totalPageLoadTime = 0, domContentLoaded = 0, loadComplete = 0\<rparr>\<rparr>,
       \<lparr>coreWebVitals = \<lparr>lcp = 11, fid = None, inp = None, cls = 0\<rparr>,
        performanceMetrics = \<lparr>ttfb = 0, fcp = 0, tti = 0, dnsTime = 0, sslTime = 0,
          totalPageLoadTime = 0, domContentLoaded = 0, loadComplete = 0\<rparr>\<rparr>]
      [\<lparr>coreWebVitals = \<lparr>lcp = 8, fid = None, inp = None, cls = 0\<rparr>,
        performanceMetrics = \<lparr>ttfb = 0, fcp = 0, tti = 0, dnsTime = 0, sslTime = 0,
          totalPageLoadTime = 0, domContentLoaded = 0, loadComplete = 0\<rparr>\<rparr>,
       \<lparr>coreWebVitals = \<lparr>lcp = 22, fid = None, inp = None, cls = 0\<rparr>,
        performanceMetrics = \<lparr>ttfb = 0, fcp = 0, tti = 0, dnsTime = 0, sslTime = 0,
          totalPageLoadTime = 0, domContentLoaded = 0, loadComplete = 0\<rparr>\<rparr>]
      ''checkout'' = Inr cs \<and>
     cs = [c] \<and> metric c = ''lcp'' \<and>
     mean (app1 c) = Fin 10 \<and> mean (app2 c) = Fin 15 \<and>
     improvement c = Fin (- 50) \<and> js_greater (Math_abs (improvement c)) (Fin 15) \<and>
     winner c = App1 \<and> \<not> significantDifference c \<and>
     c \<notin> set (detectRegressions cs (Some (Fin 15))) \<and>
     detectRegressions cs (Some (Fin 15)) = []"
proof -
  let ?a = "[\<lparr>coreWebVitals = \<lparr>lcp = 9, fid = None, inp = None, cls = 0\<rparr>,
        performanceMetrics = \<lparr>ttfb = 0, fcp = 0, tti = 0, dnsTime = 0, sslTime = 0,
          totalPageLoadTime = 0, domContentLoaded = 0, loadComplete = 0\<rparr>\<rparr>,
       \<lparr>coreWebVitals = \<lparr>lcp = 11, fid = None, inp = None, cls = 0\<rparr>,
        performanceMetrics = \<lparr>ttfb = 0, fcp = 0, tti = 0, dnsTime = 0, sslTime = 0,
          totalPageLoadTime = 0, domContentLoaded = 0, loadComplete = 0\<rparr>\<rparr>]"
  let ?b = "[\<lparr>coreWebVitals = \<lparr>lcp = 8, fid = None, inp = None, cls = 0\<rparr>,
        performanceMetrics = \<lparr>ttfb = 0, fcp = 0, tti = 0, dnsTime = 0, sslTime = 0,
          totalPageLoadTime = 0, domContentLoaded = 0, loadComplete = 0\<rparr>\<rparr>,
       \<lparr>coreWebVitals = \<lparr>lcp = 22, fid = None, inp = None, cls = 0\<rparr>,
        performanceMetrics = \<lparr>ttfb = 0, fcp = 0, tti = 0, dnsTime = 0, sslTime = 0,
          totalPageLoadTime = 0, domContentLoaded = 0, loadComplete = 0\<rparr>\<rparr>]"
  obtain cs where cs: "compareApplications ?a ?b ''checkout'' = Inr cs"
    and mm: "map metric cs =
       filter (\<lambda>m. extractMetricValues ?a m \<noteq> [] \<and> extractMetricValues ?b m \<noteq> []) metrics"
    and f: "\<forall>c \<in> set cs.
        scenario c = ''checkout'' \<and>
        calculateStatistics (extractMetricValues ?a (metric c)) = Inr (app1 c) \<and>
        calculateStatistics (extractMetricValues ?b (metric c)) = Inr (app2 c) \<and>
        improvement c = calculateImprovement (mean (app1 c)) (mean (app2 c)) \<and>
        isSignificantDifference (extractMetricValues ?a (metric c))
          (extractMetricValues ?b (metric c)) = Inr (significantDifference c) \<and>
        winner c = determineWinner (mean (app1 c)) (mean (app2 c)) (metric c)"
    using compareApplications_result[of ?a ?b "''checkout''"] by blast
  have "map metric cs = [''lcp'']"
    unfolding mm by (simp add: metrics_def extractMetricValues_def metricValue_def or_zero_def)
  then obtain c where c: "cs = [c]" "metric c = ''lcp''" by auto
  have ea: "extractMetricValues ?a ''lcp'' = [9, 11]"
    and eb: "extractMetricValues ?b ''lcp'' = [8, 22]"
    by (simp_all add: extractMetricValues_def metricValue_def)
  have s: "calculateStatistics [9, 11] = Inr (app1 c)"
      "calculateStatistics [8, 22] = Inr (app2 c)"
    and i: "improvement c = calculateImprovement (mean (app1 c)) (mean (app2 c))"
    and sg: "isSignificantDifference [9, 11] [8, 22] = Inr (significantDifference c)"
    and w: "winner c = determineWinner (mean (app1 c)) (mean (app2 c)) ''lcp''"
    using f c ea eb by auto
  have m: "mean (app1 c) = Fin 10" "mean (app2 c) = Fin 15"
    using stats_mean[OF s(1)] stats_mean[OF s(2)] by (simp_all add: float_eval)
  have v: "variance (app1 c) = Fin 1" "variance (app2 c) = Fin 49"
    using stats_variance[OF s(1)] stats_variance[OF s(2)]
    by (simp_all add: float_eval)
  have imp: "improvement c = Fin (- 50)"
    by (simp add: i m calculateImprovement_def js_sub_def float_eval)
  have l: "''lcp'' \<in> set lowerIsBetter" by (simp add: lowerIsBetter_def)
  have win: "winner c = App1"
    unfolding w m determineWinner_finite[OF l] by (simp add: float_eval)
  have q: "fmul (fdiv (fadd (fmul (real (length [9, 11 :: real]) - 1) 1)
                            (fmul (real (length [8, 22 :: real]) - 1) 49))
                      (real (length [9, 11 :: real]) + real (length [8, 22 :: real]) - 2))
                (fadd (fdiv 1 (real (length [9, 11 :: real])))
                      (fdiv 1 (real (length [8, 22 :: real])))) = 25"
    by (simp add: float_eval)
  have "isSignificantDifference [9, 11] [8, 22] = Inr False"
    using isSignificantDifference_eval[OF _ _ s m v]
    unfolding q sqrt_25 by (simp add: js_greater_def float_eval)
  then have ns: "\<not> significantDifference c" using sg by simp
  have gap: "js_greater (Math_abs (improvement c)) (Fin 15)"
    by (simp add: imp js_greater_def)
  have out: "c \<notin> set (detectRegressions cs (Some (Fin 15)))"
    using detectRegressions_exact[of c cs "Fin 15"] ns by blast
  have none: "detectRegressions cs (Some (Fin 15)) = []"
    using ns by (simp add: c detectRegressions_def Let_def)
  show ?thesis
    using cs c m imp gap win ns out none by (intro exI[of _ cs] exI[of _ c] conjI)
qed

section \<open>Properties of the step interpreter\<close>

text \<open>
  What the substitution does with the placeholders it handles: a user name without a
  dollar sign is put in from a member of the pool, a key that has no string in the test
  data is left as it stands, and so is a key whose string is empty.
\<close>

lemma expand_replacement_plain:
  "CHR ''$'' \<notin> set r \<Longrightarrow> expand_replacement m p q r = r"
  by (induction m p q r rule: expand_replacement.induct) auto

lemma match_placeholder_dollar:
  "match_placeholder s = Some x \<Longrightarrow> CHR ''$'' \<in> set s"
  by (auto simp: match_placeholder_def split: list.splits if_splits)

lemma replace_placeholders_plain:
  "CHR ''$'' \<notin> set s \<Longrightarrow> replace_placeholders f s = s"
proof (induction s)
  case Nil
  then show ?case by simp
next
  case (Cons c cs)
  then have "match_placeholder (c # cs) = None"
    using match_placeholder_dollar[of "c # cs"] by (cases "match_placeholder (c # cs)") auto
  then show ?case using Cons by simp
qed

lemma find_first_Some: "find_first pat s = Some (a, b) \<Longrightarrow> s = a @ pat @ b"
proof (induction s arbitrary: a)
  case Nil
  then show ?case by (simp split: if_splits)
next
  case (Cons c cs)
  show ?case
  proof (cases "prefix pat (c # cs)")
    case True
    then have ab: "a = []" "b = drop (length pat) (c # cs)" using Cons.prems by simp_all
    obtain zs where zs: "c # cs = pat @ zs" using True by (auto simp: prefix_def)
    have "b = zs" unfolding ab zs by simp
    then show ?thesis using ab zs by simp
  next
    case False
    then obtain a' where "find_first pat cs = Some (a', b)" "a = c # a'"
      using Cons.prems by (auto split: option.splits)
    then show ?thesis using Cons.IH[of a'] by simp
  qed
qed

lemma find_first_plain:
  "CHR ''$'' \<notin> set s \<Longrightarrow> find_first (CHR ''$'' # pat) s = None"
proof (cases "find_first (CHR ''$'' # pat) s")
  case None
  then show ?thesis by simp
next
  case (Some x)
  assume p: "CHR ''$'' \<notin> set s"
  obtain a b where "x = (a, b)" by (cases x)
  then have "s = a @ (CHR ''$'' # pat) @ b" using Some find_first_Some by blast
  then have "CHR ''$'' \<in> set s" by simp
  then show ?thesis using p by simp
qed

text \<open>
  The index that \<^verbatim>\<open>getRandomUser\<close> computes lies in the pool: \<^verbatim>\<open>Math.random()\<close> returns
  a double below 1, which is at most \<open>1 - 2\<^sup>-\<^sup>5\<^sup>3\<close>, and the rounded product with the
  length stays below the length.
\<close>

lemma random_index_in_pool:
  assumes "0 \<le> r" "r \<le> 1 - 1 / 2 ^ 53" "0 < n"
  shows "0 \<le> \<lfloor>fmul r (real n)\<rfloor> \<and> \<lfloor>fmul r (real n)\<rfloor> < int n"
proof -
  have nn: "0 \<le> r * real n" using assms by simp
  then have lo: "0 \<le> fmul r (real n)" unfolding fmul_def by (rule rnd_nonneg)
  have hi: "fmul r (real n) < real n"
  proof (cases "r * real n = 0")
    case True
    then show ?thesis using assms(3) by (simp add: fmul_def)
  next
    case False
    then have p: "0 < r * real n" using nn by linarith
    have "rnd (r * real n) \<le> (r * real n) * (1 + 1 / 2 ^ 53)"
      by (rule rnd_relative_error[OF p])
    also have "\<dots> \<le> ((1 - 1 / 2 ^ 53) * real n) * (1 + 1 / 2 ^ 53)"
      using assms by (intro mult_right_mono) auto
    also have "\<dots> = real n * ((1 - 1 / 2 ^ 53) * (1 + 1 / 2 ^ 53))" by simp
    also have "\<dots> < real n * 1"
      using assms(3) by (intro mult_strict_left_mono) auto
    finally show ?thesis by (simp add: fmul_def)
  qed
  show ?thesis using lo hi by (simp add: floor_less_iff)
qed

lemma username_from_pool:
  assumes pool: "pool = (case td of None \<Rightarrow> defaultUsers
                   | Some d \<Rightarrow> (case users d of None \<Rightarrow> defaultUsers | Some us \<Rightarrow> us))"
    and ne: "pool \<noteq> []"
    and r: "0 \<le> g 0" "g 0 \<le> 1 - 1 / 2 ^ 53"
    and plain: "\<forall>u \<in> set pool. CHR ''$'' \<notin> set (username u)"
  shows "\<exists>u \<in> set pool. processValue td g ''${username}'' = Inr (username u, \<lambda>i. g (Suc i))"
proof -
  define k where "k = \<lfloor>fmul (g 0) (real (length pool))\<rfloor>"
  have n: "0 < length pool" using ne by simp
  have k0: "0 \<le> k" and k1: "k < int (length pool)"
    unfolding k_def using random_index_in_pool[OF r n] by simp_all
  define u where "u = pool ! nat k"
  have u: "u \<in> set pool" unfolding u_def using k0 k1 by (intro nth_mem) auto
  have gu: "getRandomUser td g = (Some u, \<lambda>i. g (Suc i))"
    unfolding getRandomUser_def pool[symmetric] Math_random_def Let_def
    using k0 k1 by (simp add: js_index_def k_def u_def)
  have p: "CHR ''$'' \<notin> set (username u)" using plain u by blast
  have np: "find_first ''${password}'' (username u) = None"
    using find_first_plain[OF p, of "''{password}''"] by simp
  have "processValue td g ''${username}'' = Inr (username u, \<lambda>i. g (Suc i))"
    by (simp add: processValue_def str_includes_def substituteUser_def gu replace_first_def
        expand_replacement_plain[OF p] replace_placeholders_plain[OF p] np)
  then show ?thesis using u by blast
qed

lemma unknown_key_left_unchanged:
  assumes "getTestDataValue td ''totallyUnknownKey'' = []"
  shows "processValue td g ''${totallyUnknownKey}'' = Inr (''${totallyUnknownKey}'', g)"
  using assms
  by (simp add: processValue_def str_includes_def substituteUser_def match_placeholder_def
      is_word_char_def)

lemma known_key_substituted:
  "processValue (Some \<lparr>users = None, entries = [(''title'', JStr ''Report''), (''note'', JStr '''')]\<rparr>)
     g ''a ${title} b ${note} c'' = Inr (''a Report b ${note} c'', g)"
  by (simp add: getTestDataValue_def testDataObject_def js_get_def processValue_def
      str_includes_def substituteUser_def match_placeholder_def is_word_char_def)

text \<open>
  C7, at a dotted placeholder: the traversal of \<^verbatim>\<open>getTestDataValue\<close> finds the string
  under \<^verbatim>\<open>formData.basic.title\<close>, but \<^verbatim>\<open>processValue\<close> returns the value unchanged,
  since \<^verbatim>\<open>\w+\<close> matches no dot and the callback is never called with a dotted key.
\<close>

theorem dotted_placeholder_left_unchanged:
  "getTestDataValue
     (Some \<lparr>users = None,
            entries = [(''formData'', JObj [(''basic'', JObj [(''title'', JStr ''Report'')])])]\<rparr>)
     ''formData.basic.title'' = ''Report'' \<and>
   processValue
     (Some \<lparr>users = None,
            entries = [(''formData'', JObj [(''basic'', JObj [(''title'', JStr ''Report'')])])]\<rparr>)
     g ''${formData.basic.title}'' = Inr (''${formData.basic.title}'', g)"
  by (simp add: getTestDataValue_def testDataObject_def js_get_def processValue_def
      str_includes_def substituteUser_def match_placeholder_def is_word_char_def)

text \<open>
  C8: a click step with no selector throws the error "Click step requires selector"; a
  fill step with no selector or no value throws "Fill step requires selector and
  value" (the errors the specification calls ConfigurationError). A fill step with a
  selector and the empty string as its value passes the check: it waits for the
  element, clears it and fills in the empty string, and fails only if the element
  never becomes visible.
\<close>

theorem step_validation:
  "(selector step = None \<longrightarrow>
      executeClickStep r step t = Inl (Error ''Click step requires selector'')) \<and>
   (selector step = None \<or> value' step = None \<longrightarrow>
      executeFillStep r step = Inl (Error ''Fill step requires selector and value'')) \<and>
   (\<forall>sel. selector step = Some sel \<and> sel \<noteq> [] \<and> value' step = Some [] \<longrightarrow>
      executeFillStep r step \<noteq> Inl (Error ''Fill step requires selector and value'') \<and>
      executeFillStep r step =
        (if becomesVisible (page r) sel
         then Inr (perform (Fill sel []) (perform (Clear sel)
                     (perform (WaitForVisible sel 5000) r)))
         else Inl (TimeoutError ''Timeout exceeded'')))"
proof (intro conjI impI allI)
  assume "selector step = None"
  then show "executeClickStep r step t = Inl (Error ''Click step requires selector'')"
    by (simp add: executeClickStep_def no_selector_def)
next
  assume "selector step = None \<or> value' step = None"
  then show "executeFillStep r step = Inl (Error ''Fill step requires selector and value'')"
    by (auto simp: executeFillStep_def no_selector_def split: option.splits)
next
  fix sel
  assume a: "selector step = Some sel \<and> sel \<noteq> [] \<and> value' step = Some []"
  have pv: "processValue td g [] = Inr ([], g)" for td g
    by (simp add: processValue_def str_includes_def)
  show e: "executeFillStep r step =
        (if becomesVisible (page r) sel
         then Inr (perform (Fill sel []) (perform (Clear sel)
                     (perform (WaitForVisible sel 5000) r)))
         else Inl (TimeoutError ''Timeout exceeded''))"
    using a by (simp add: executeFillStep_def no_selector_def waitForVisible_def pv perform_def)
  show "executeFillStep r step \<noteq> Inl (Error ''Fill step requires selector and value'')"
    unfolding e by simp
qed

theorem step_validation_witness:
  "executeClickStep
     \<lparr>testData = None, page = \<lparr>becomesVisible = (\<lambda>s. True), calls = []\<rparr>, randomSource = (\<lambda>i. 0)\<rparr>
     \<lparr>action = ''click'', selector = None, value' = None, url = None, timeout = None,
       customFunction = None\<rparr> 10000
     = Inl (Error ''Click step requires selector'') \<and>
   executeFillStep
     \<lparr>testData = None, page = \<lparr>becomesVisible = (\<lambda>s. True), calls = []\<rparr>, randomSource = (\<lambda>i. 0)\<rparr>
     \<lparr>action = ''fill'', selector = Some ''#x'', value' = None, url = None, timeout = None,
       customFunction = None\<rparr>
     = Inl (Error ''Fill step requires selector and value'') \<and>
   (\<exists>r'. executeFillStep
     \<lparr>testData = None, page = \<lparr>becomesVisible = (\<lambda>s. True), calls = []\<rparr>, randomSource = (\<lambda>i. 0)\<rparr>
     \<lparr>action = ''fill'', selector = Some ''#x'', value' = Some '''', url = None, timeout = None,
       customFunction = None\<rparr>
     = Inr r' \<and>
     calls (page r') = [WaitForVisible ''#x'' 5000, Clear ''#x'', Fill ''#x'' ''''])"
proof -
  let ?r = "\<lparr>testData = None, page = \<lparr>becomesVisible = (\<lambda>s. True), calls = []\<rparr>,
             randomSource = (\<lambda>i. 0)\<rparr>"
  let ?click = "\<lparr>action = ''click'', selector = None, value' = None, url = None,
                 timeout = None, customFunction = None\<rparr>"
  let ?fill1 = "\<lparr>action = ''fill'', selector = Some ''#x'', value' = None, url = None,
                 timeout = None, customFunction = None\<rparr>"
  let ?fill2 = "\<lparr>action = ''fill'', selector = Some ''#x'', value' = Some '''', url = None,
                 timeout = None, customFunction = None\<rparr>"
  have a: "executeClickStep ?r ?click 10000 = Inl (Error ''Click step requires selector'')"
    using step_validation[of ?click ?r 10000] by simp
  have b: "executeFillStep ?r ?fill1 = Inl (Error ''Fill step requires selector and value'')"
    using step_validation[of ?fill1 ?r 0] by simp
  have "selector ?fill2 = Some ''#x'' \<and> ''#x'' \<noteq> [] \<and> value' ?fill2 = Some []" by simp
  then have "executeFillStep ?r ?fill2 =
        (if becomesVisible (page ?r) ''#x''
         then Inr (perform (Fill ''#x'' []) (perform (Clear ''#x'')
                     (perform (WaitForVisible ''#x'' 5000) ?r)))
         else Inl (TimeoutError ''Timeout exceeded''))"
    using step_validation[of ?fill2 ?r 0] by blast
  then have c: "\<exists>r'. executeFillStep ?r ?fill2 = Inr r' \<and>
     calls (page r') = [WaitForVisible ''#x'' 5000, Clear ''#x'', Fill ''#x'' '''']"
    by (simp add: perform_def)
  show ?thesis using a b c by (intro conjI)
qed

end
